theory Spec2Isabelle
  imports Main "HOL-Library.Word" "HOL-Library.Signed_Division"
begin

section \<open>LU-factorisation dispatch of jaxlib/gpu/solver\_kernels\_ffi.cc\<close>

text \<open>
  The file under verification is the host-side dispatcher \<^verbatim>\<open>GetrfDispatch\<close> with its two
  implementations \<^verbatim>\<open>GetrfImpl\<close> (one vendor call per matrix) and \<^verbatim>\<open>GetrfBatchedImpl\<close>
  (one pointer-array call for the whole batch).  The numerical work is done by the vendor
  library on the device; the host code only decides which calls are issued, with which
  arguments, and which \<^verbatim>\<open>ffi::Error\<close> is returned.  The embedding therefore threads the list
  of calls issued so far through every function and takes the answers of the outside world
  (handle pools, scratch allocator, vendor library) from a record of oracles.

  Machine integers are words: \<^verbatim>\<open>int64_t\<close> and \<^verbatim>\<open>size_t\<close> and device addresses are 64-bit,
  \<^verbatim>\<open>int\<close> is 32-bit.  Unsigned and address arithmetic wraps around.  The two places where an
  \<^verbatim>\<open>int\<close> computation can leave its range are both in the loop of \<^verbatim>\<open>GetrfImpl\<close>, and C++
  leaves both undefined: the product \<^verbatim>\<open>m * n\<close> of the cursor step is given the value that the
  two's-complement targets compute (the low 32 bits), and the increment of a loop index that
  holds the largest \<^verbatim>\<open>int\<close> is given no value at all: the result of the dispatch is then
  \<open>None\<close>, "undefined".
\<close>

subsection \<open>Types of the FFI layer\<close>

type_synonym int64_t = "64 word"
type_synonym cint = "32 word"
type_synonym size_t = "64 word"
type_synonym ptr = "64 word"
type_synonym gpuStream_t = nat

text \<open>The element types of \<^verbatim>\<open>xla::ffi::DataType\<close>.\<close>

datatype DataType =
    INVALID | PRED | S8 | S16 | S32 | S64 | U8 | U16 | U32 | U64
  | F16 | F32 | F64 | BF16 | C64 | C128 | TOKEN

text \<open>The codes of \<^verbatim>\<open>xla::ffi::ErrorCode\<close> (the same numbering as \<^verbatim>\<open>absl::StatusCode\<close>).\<close>

datatype ErrorCode =
    kOk | kCancelled | kUnknown | kInvalidArgument | kDeadlineExceeded | kNotFound
  | kAlreadyExists | kPermissionDenied | kResourceExhausted | kFailedPrecondition
  | kAborted | kOutOfRange | kUnimplemented | kInternal | kUnavailable | kDataLoss
  | kUnauthenticated

text \<open>\<^verbatim>\<open>ffi::Error\<close>: a code and a message; \<^verbatim>\<open>ffi::Error::Success()\<close> carries \<^verbatim>\<open>kOk\<close>.\<close>

datatype Error = Error (code: ErrorCode) (message: string)

definition Success :: Error where
  "Success = Error kOk []"

text \<open>
  \<^verbatim>\<open>ffi::AnyBuffer\<close> with the three accessors the dispatcher uses, and
  \<^verbatim>\<open>ffi::Buffer<S32>\<close> with its \<^verbatim>\<open>typed_data()\<close>.
\<close>

record AnyBuffer =
  element_type :: DataType
  dimensions :: "int64_t list"
  untyped_data :: ptr

record Buffer_S32 =
  typed_data :: ptr

text \<open>
  The template parameter \<^verbatim>\<open>T\<close> of the two implementations and \<^verbatim>\<open>sizeof(T)\<close>.  The complex
  types are pairs of \<^verbatim>\<open>float\<close> or \<^verbatim>\<open>double\<close>.
\<close>

datatype T = float | double | gpuComplex | gpuDoubleComplex | gpublasComplex | gpublasDoubleComplex

fun sizeof :: "T \<Rightarrow> size_t" where
  "sizeof float = 4"
| "sizeof double = 8"
| "sizeof gpuComplex = 8"
| "sizeof gpuDoubleComplex = 16"
| "sizeof gpublasComplex = 8"
| "sizeof gpublasDoubleComplex = 16"

subsection \<open>The outside world\<close>

text \<open>
  What a call to a pool or to the vendor library hands back to the host: success, or a
  failure with its message.
\<close>

datatype Status = OkStatus | ErrorStatus string

text \<open>
  Every call that leaves the translation unit, with the arguments it is given.  The
  dispatcher's observable behaviour is the list of these calls, oldest first.
\<close>

datatype call =
    Borrow_Solver gpuStream_t
      \<comment> \<open>\<^verbatim>\<open>SolverHandlePool::Borrow(stream)\<close>\<close>
  | Borrow_Blas gpuStream_t
      \<comment> \<open>\<^verbatim>\<open>BlasHandlePool::Borrow(stream)\<close>\<close>
  | BufferSize T cint cint cint
      \<comment> \<open>\<^verbatim>\<open>name##_bufferSize(handle, m, n, nullptr, lda, &lwork)\<close>\<close>
  | ScratchAllocate size_t
      \<comment> \<open>\<^verbatim>\<open>scratch.Allocate(size)\<close>\<close>
  | MemcpyAsync ptr ptr size_t gpuStream_t
      \<comment> \<open>\<^verbatim>\<open>gpuMemcpyAsync(dst, src, count, gpuMemcpyDeviceToDevice, stream)\<close>\<close>
  | Run T cint cint ptr cint ptr cint ptr ptr
      \<comment> \<open>\<^verbatim>\<open>name(handle, m, n, a, lda, workspace, lwork, ipiv, info)\<close>\<close>
  | MakeBatchPointers gpuStream_t ptr ptr int64_t size_t
      \<comment> \<open>\<^verbatim>\<open>MakeBatchPointersAsync(stream, buffer, dev_ptrs, batch, batch_elem_size)\<close>\<close>
  | GetLastError
      \<comment> \<open>\<^verbatim>\<open>gpuGetLastError()\<close>\<close>
  | BatchedRun T cint ptr cint ptr ptr cint
      \<comment> \<open>\<^verbatim>\<open>name(handle, n, a, lda, ipiv, info, batch)\<close>\<close>

text \<open>
  Modelled from the spec: \<^verbatim>\<open>MakeBatchPointersAsync\<close> (jaxlib/gpu/make\_batch\_pointers.h) is
  declared outside the file.  The spec says: it is given the base address of a contiguous
  buffer, an array of pointer slots in scratch, the batch count and a fixed byte stride, and
  fills slot \<open>i\<close> with \<open>base + i * stride\<close>.  Its event carries the values of the argument
  expressions of the call: \<^verbatim>\<open>batch\<close>, an \<^verbatim>\<open>int64_t\<close>, and \<^verbatim>\<open>sizeof(T) * n * n\<close>, a \<^verbatim>\<open>size_t\<close>.
\<close>

text \<open>
  The answers of the outside world.  The single-matrix factorisation answers with the
  status it returns to the host and with the info code it writes on the device for that
  matrix (0, or the index of a zero pivot for a singular matrix); the host code sees only
  the status.
\<close>

record backend =
  SolverHandlePool_Borrow :: "gpuStream_t \<Rightarrow> Status"
  BlasHandlePool_Borrow :: "gpuStream_t \<Rightarrow> Status"
  getrf_bufferSize :: "T \<Rightarrow> cint \<Rightarrow> cint \<Rightarrow> cint \<Rightarrow> Status \<times> cint"
  Allocate :: "size_t \<Rightarrow> ptr option"
  gpuMemcpyAsync :: "ptr \<Rightarrow> ptr \<Rightarrow> size_t \<Rightarrow> gpuStream_t \<Rightarrow> Status"
  getrf :: "T \<Rightarrow> cint \<Rightarrow> cint \<Rightarrow> ptr \<Rightarrow> cint \<Rightarrow> ptr \<Rightarrow> cint \<Rightarrow> ptr \<Rightarrow> ptr \<Rightarrow> Status \<times> cint"
  gpuGetLastError :: "Status"
  getrfBatched :: "T \<Rightarrow> cint \<Rightarrow> ptr \<Rightarrow> cint \<Rightarrow> ptr \<Rightarrow> ptr \<Rightarrow> cint \<Rightarrow> Status"

subsection \<open>Helpers of jaxlib that are not in the file\<close>

text \<open>
  Modelled from the spec: the macros \<^verbatim>\<open>JAX_AS_STATUS\<close>, \<^verbatim>\<open>JAX_RETURN_IF_ERROR\<close>,
  \<^verbatim>\<open>FFI_RETURN_IF_ERROR_STATUS\<close> and \<^verbatim>\<open>FFI_ASSIGN_OR_RETURN\<close> (jaxlib/ffi\_helpers.h and
  jaxlib/gpu/gpu\_kernel\_helpers.h) turn a failed pool or vendor call into the
  \<^verbatim>\<open>ffi::Error\<close> that is returned.  The spec says: runtime failures (handle-creation failure,
  device launch error, backend-call failure) are reported as \<^verbatim>\<open>Unknown\<close> with a descriptive
  message.
\<close>

fun AsFfiError :: "Status \<Rightarrow> Error" where
  "AsFfiError OkStatus = Success"
| "AsFfiError (ErrorStatus msg) = Error kUnknown msg"

text \<open>
  Modelled from the spec: \<^verbatim>\<open>MaybeCastNoOverflow<int>\<close> (jaxlib/ffi\_helpers.h).  The spec
  says: rows and cols must fit a 32-bit signed range, else \<^verbatim>\<open>InvalidArgument\<close>
  (overflow-checked cast).
\<close>

definition MaybeCastNoOverflow :: "int64_t \<Rightarrow> Error + cint" where
  "MaybeCastNoOverflow v =
     (if - (2 ^ 31) \<le> sint v \<and> sint v \<le> 2 ^ 31 - 1 then Inr (scast v)
      else Inl (Error kInvalidArgument ''Value exceeds the representable range of the desired type''))"

text \<open>
  Modelled from the spec: \<^verbatim>\<open>SplitBatch2D\<close> (jaxlib/ffi\_helpers.h).  The spec says: the
  dimensions must be decomposable into (batch, rows, cols), else \<^verbatim>\<open>InvalidArgument\<close>; rows
  and cols are the two trailing dimensions and the batch count is derived from the leading
  ones (their product, 1 when there are none).
\<close>

definition SplitBatch2D :: "int64_t list \<Rightarrow> Error + (int64_t \<times> int64_t \<times> int64_t)" where
  "SplitBatch2D dims =
     (if length dims < 2
      then Inl (Error kInvalidArgument ''Argument must have at least 2 dimensions'')
      else Inr (fold (\<lambda>d acc. acc * d) (take (length dims - 2) dims) 1,
                dims ! (length dims - 2), dims ! (length dims - 1)))"

subsection \<open>Signed 64-bit and 32-bit arithmetic of C++\<close>

text \<open>\<^verbatim>\<open>a / b\<close> on \<^verbatim>\<open>int64_t\<close> truncates towards zero.\<close>

definition sdiv64 :: "int64_t \<Rightarrow> int64_t \<Rightarrow> int64_t" where
  "sdiv64 a b = word_of_int (sint a sdiv sint b)"

text \<open>\<^verbatim>\<open>std::min(m, n)\<close> on \<^verbatim>\<open>int\<close>: the second argument if it is smaller, else the first.\<close>

definition std_min :: "cint \<Rightarrow> cint \<Rightarrow> cint" where
  "std_min m n = (if n <s m then n else m)"

subsection \<open>GetrfImpl: one vendor call per matrix\<close>

text \<open>
  The loop \<^verbatim>\<open>for (int i = 0; i < batch; ++i)\<close>.  The index is an \<^verbatim>\<open>int\<close> and is widened for
  the comparison with the 64-bit batch count; the cursors are typed pointers, so
  \<^verbatim>\<open>out_data += m * n\<close> moves by \<^verbatim>\<open>sizeof(T)\<close> bytes per element, the product being computed
  in \<^verbatim>\<open>int\<close>, and the two \<^verbatim>\<open>int*\<close> cursors move by 4 bytes per element.

  The increment \<^verbatim>\<open>++i\<close> of an index that holds the largest \<^verbatim>\<open>int\<close> is a signed overflow, which
  C++ leaves undefined: the model does not choose a value for it.  The result \<open>None\<close> is
  "the behaviour is undefined from here on" and stands for nothing else; with that, the loop
  is a total function, since the index only grows and the overflow ends the recursion.  The
  increment is reached only after a run that succeeded, and only a batch count above the
  largest \<^verbatim>\<open>int\<close> lets the index get that far.
\<close>

function GetrfImpl_loop ::
  "backend \<Rightarrow> T \<Rightarrow> int64_t \<Rightarrow> cint \<Rightarrow> cint \<Rightarrow> ptr \<Rightarrow> cint \<Rightarrow>
   cint \<Rightarrow> ptr \<Rightarrow> ptr \<Rightarrow> ptr \<Rightarrow> call list \<Rightarrow> (Error \<times> call list) option" where
  "GetrfImpl_loop be ty batch m n workspace lwork i out_data ipiv_data info_data tr =
     (if scast i <s batch then
        (case fst (getrf be ty m n out_data m workspace lwork ipiv_data info_data) of
           ErrorStatus msg \<Rightarrow>
             Some (AsFfiError (ErrorStatus msg),
                   tr @ [Run ty m n out_data m workspace lwork ipiv_data info_data])
         | OkStatus \<Rightarrow>
             (if i = 2147483647 then None
              else
                GetrfImpl_loop be ty batch m n workspace lwork (i + 1)
                  (out_data + sizeof ty * scast (m * n))
                  (ipiv_data + 4 * scast (std_min m n))
                  (info_data + 4)
                  (tr @ [Run ty m n out_data m workspace lwork ipiv_data info_data])))
      else Some (Success, tr))"
  by pat_completeness auto

termination
proof (relation "measure (\<lambda>(be, ty, batch, m, n, workspace, lwork, i, rest). nat (2 ^ 31 - 1 - sint i))")
  show "wf (measure (\<lambda>(be :: backend, ty :: T, batch :: int64_t, m :: cint, n :: cint,
                        workspace :: ptr, lwork :: cint, i :: cint,
                        rest :: ptr \<times> ptr \<times> ptr \<times> call list).
                      nat (2 ^ 31 - 1 - sint i)))"
    by simp
next
  fix be :: backend and ty :: T and batch :: int64_t and m n lwork i :: cint
    and workspace out_data ipiv_data info_data :: ptr and tr :: "call list"
  assume "i \<noteq> 2147483647"
  then have "sint i \<noteq> 2 ^ 31 - 1"
  proof (rule contrapos_nn)
    assume "sint i = 2 ^ 31 - 1"
    then have "sint i = sint (2147483647 :: cint)" by simp
    then show "i = 2147483647" by (rule signed_word_eqI)
  qed
  moreover have "sint i < 2 ^ 31" "- (2 ^ 31) \<le> sint i"
    using sint_lt [of i] sint_ge [of i] by simp_all
  ultimately have lt: "sint i < 2 ^ 31 - 1" by linarith
  then have "sint (i + 1) = sint i + 1"
    using \<open>- (2 ^ 31) \<le> sint i\<close>
    by (simp add: sint_word_add signed_take_bit_int_eq_self)
  with lt show "((be, ty, batch, m, n, workspace, lwork, i + 1,
                  out_data + sizeof ty * scast (m * n), ipiv_data + 4 * scast (std_min m n),
                  info_data + 4, tr @ [Run ty m n out_data m workspace lwork ipiv_data info_data]),
                 (be, ty, batch, m, n, workspace, lwork, i, out_data, ipiv_data, info_data, tr))
        \<in> measure (\<lambda>(be, ty, batch, m, n, workspace, lwork, i, rest). nat (2 ^ 31 - 1 - sint i))"
    by simp
qed

declare GetrfImpl_loop.simps [simp del]

definition GetrfImpl ::
  "backend \<Rightarrow> T \<Rightarrow> int64_t \<Rightarrow> int64_t \<Rightarrow> int64_t \<Rightarrow> gpuStream_t \<Rightarrow>
   AnyBuffer \<Rightarrow> AnyBuffer \<Rightarrow> Buffer_S32 \<Rightarrow> Buffer_S32 \<Rightarrow> call list \<Rightarrow> (Error \<times> call list) option" where
  "GetrfImpl be ty batch rows cols stream a out ipiv info tr =
     (case MaybeCastNoOverflow rows of Inl e \<Rightarrow> Some (e, tr) | Inr m \<Rightarrow>
     (case MaybeCastNoOverflow cols of Inl e \<Rightarrow> Some (e, tr) | Inr n \<Rightarrow>
     (case SolverHandlePool_Borrow be stream of
        ErrorStatus msg \<Rightarrow> Some (AsFfiError (ErrorStatus msg), tr @ [Borrow_Solver stream])
      | OkStatus \<Rightarrow>
     (case fst (getrf_bufferSize be ty m n m) of
        ErrorStatus msg \<Rightarrow>
          Some (AsFfiError (ErrorStatus msg), tr @ [Borrow_Solver stream, BufferSize ty m n m])
      | OkStatus \<Rightarrow>
     (let lwork = snd (getrf_bufferSize be ty m n m);
          tr1 = tr @ [Borrow_Solver stream, BufferSize ty m n m,
                      ScratchAllocate (sizeof ty * scast lwork)]
      in
     (case Allocate be (sizeof ty * scast lwork) of
        None \<Rightarrow> Some (Error kUnknown ''Unable to allocate workspace for getrf'', tr1)
      | Some workspace \<Rightarrow>
     (let a_data = untyped_data a;
          out_data = untyped_data out;
          ipiv_data = typed_data ipiv;
          info_data = typed_data info;
          copy = MemcpyAsync out_data a_data (sizeof ty * batch * rows * cols) stream
      in
      if a_data \<noteq> out_data then
        (case gpuMemcpyAsync be out_data a_data (sizeof ty * batch * rows * cols) stream of
           ErrorStatus msg \<Rightarrow> Some (AsFfiError (ErrorStatus msg), tr1 @ [copy])
         | OkStatus \<Rightarrow>
             GetrfImpl_loop be ty batch m n workspace lwork 0 out_data ipiv_data info_data
               (tr1 @ [copy]))
      else
        GetrfImpl_loop be ty batch m n workspace lwork 0 out_data ipiv_data info_data
          tr1)))))))"

subsection \<open>GetrfBatchedImpl: one pointer-array call for the batch\<close>

text \<open>
  \<^verbatim>\<open>GetrfBatchedKernel<T>::Run\<close> takes the batch count as an \<^verbatim>\<open>int\<close>: the 64-bit count is
  narrowed at the call (\<open>ucast\<close> keeps the low 32 bits).  The stride handed to
  \<^verbatim>\<open>MakeBatchPointersAsync\<close> is \<^verbatim>\<open>sizeof(T) * n * n\<close>, computed in \<^verbatim>\<open>size_t\<close>.
\<close>

definition GetrfBatchedImpl ::
  "backend \<Rightarrow> T \<Rightarrow> int64_t \<Rightarrow> int64_t \<Rightarrow> gpuStream_t \<Rightarrow>
   AnyBuffer \<Rightarrow> AnyBuffer \<Rightarrow> Buffer_S32 \<Rightarrow> Buffer_S32 \<Rightarrow> call list \<Rightarrow> Error \<times> call list" where
  "GetrfBatchedImpl be ty batch cols stream a out ipiv info tr =
     (case MaybeCastNoOverflow cols of Inl e \<Rightarrow> (e, tr) | Inr n \<Rightarrow>
     (case BlasHandlePool_Borrow be stream of
        ErrorStatus msg \<Rightarrow> (AsFfiError (ErrorStatus msg), tr @ [Borrow_Blas stream])
      | OkStatus \<Rightarrow>
     (let tr1 = tr @ [Borrow_Blas stream, ScratchAllocate (8 * batch)]
      in
     (case Allocate be (8 * batch) of
        None \<Rightarrow> (Error kUnknown ''Unable to allocate workspace for batched getrf'', tr1)
      | Some workspace \<Rightarrow>
     (let a_data = untyped_data a;
          out_data = untyped_data out;
          ipiv_data = typed_data ipiv;
          info_data = typed_data info;
          copy = MemcpyAsync out_data a_data (sizeof ty * batch * cols * cols) stream;
          copied = gpuMemcpyAsync be out_data a_data (sizeof ty * batch * cols * cols) stream;
          tr2 = (if a_data \<noteq> out_data then tr1 @ [copy] else tr1);
          tr3 = tr2 @ [MakeBatchPointers stream out_data workspace batch
                         (sizeof ty * scast n * scast n),
                       GetLastError];
          tr4 = tr3 @ [BatchedRun ty n workspace n ipiv_data info_data (ucast batch)];
          ran = getrfBatched be ty n workspace n ipiv_data info_data (ucast batch)
      in
      if a_data \<noteq> out_data \<and> copied \<noteq> OkStatus then (AsFfiError copied, tr2)
      else if gpuGetLastError be \<noteq> OkStatus then (AsFfiError (gpuGetLastError be), tr3)
      else if ran \<noteq> OkStatus then (AsFfiError ran, tr4)
      else (Success, tr4))))))"

subsection \<open>GetrfDispatch\<close>

definition GetrfDispatch ::
  "backend \<Rightarrow> gpuStream_t \<Rightarrow> AnyBuffer \<Rightarrow> AnyBuffer \<Rightarrow> Buffer_S32 \<Rightarrow> Buffer_S32 \<Rightarrow>
   call list \<Rightarrow> (Error \<times> call list) option" where
  "GetrfDispatch be stream a out ipiv info tr =
     (let dataType = element_type a in
      if dataType \<noteq> element_type out then
        Some (Error kInvalidArgument
                ''The input and output to getrf must have the same element type'', tr)
      else
     (case SplitBatch2D (dimensions a) of Inl e \<Rightarrow> Some (e, tr) | Inr (batch, rows, cols) \<Rightarrow>
      if 1 <s batch \<and> rows = cols \<and> sdiv64 rows batch \<le>s 128 then
        if dataType = F32 then
          Some (GetrfBatchedImpl be float batch cols stream a out ipiv info tr)
        else if dataType = F64 then
          Some (GetrfBatchedImpl be double batch cols stream a out ipiv info tr)
        else if dataType = C64 then
          Some (GetrfBatchedImpl be gpublasComplex batch cols stream a out ipiv info tr)
        else if dataType = C128 then
          Some (GetrfBatchedImpl be gpublasDoubleComplex batch cols stream a out ipiv info tr)
        else Some (Error kInvalidArgument ''Unsupported element type for getrf'', tr)
      else
        if dataType = F32 then
          GetrfImpl be float batch rows cols stream a out ipiv info tr
        else if dataType = F64 then
          GetrfImpl be double batch rows cols stream a out ipiv info tr
        else if dataType = C64 then
          GetrfImpl be gpuComplex batch rows cols stream a out ipiv info tr
        else if dataType = C128 then
          GetrfImpl be gpuDoubleComplex batch rows cols stream a out ipiv info tr
        else Some (Error kInvalidArgument ''Unsupported element type for getrf'', tr)))"

subsection \<open>Vocabulary for the statements\<close>

text \<open>The instantiation of \<^verbatim>\<open>T\<close> that the dispatcher picks for an element type, per strategy.\<close>

fun looped_kernel :: "DataType \<Rightarrow> T option" where
  "looped_kernel F32 = Some float"
| "looped_kernel F64 = Some double"
| "looped_kernel C64 = Some gpuComplex"
| "looped_kernel C128 = Some gpuDoubleComplex"
| "looped_kernel _ = None"

fun batched_kernel :: "DataType \<Rightarrow> T option" where
  "batched_kernel F32 = Some float"
| "batched_kernel F64 = Some double"
| "batched_kernel C64 = Some gpublasComplex"
| "batched_kernel C128 = Some gpublasDoubleComplex"
| "batched_kernel _ = None"

text \<open>
  Kinds of calls.  A factorisation is a single-matrix or a batched run; device work is what
  is enqueued on the stream (copy, pointer-array kernel, factorisations); a backend call is
  any call into the vendor runtime or library, which includes the workspace-size query and
  the launch-error query but not the handle pools and the scratch allocator.
\<close>

fun is_factorization :: "call \<Rightarrow> bool" where
  "is_factorization (Run _ _ _ _ _ _ _ _ _) = True"
| "is_factorization (BatchedRun _ _ _ _ _ _ _) = True"
| "is_factorization _ = False"

fun is_copy :: "call \<Rightarrow> bool" where
  "is_copy (MemcpyAsync _ _ _ _) = True"
| "is_copy _ = False"



text \<open>
  The call the loop of \<^verbatim>\<open>GetrfImpl\<close> issues in its round \<open>k\<close> (counted from 0) when it was
  entered with the three cursors \<open>out_data\<close>, \<open>ipiv_data\<close>, \<open>info_data\<close>: each earlier round
  has moved them by the steps the code computes.
\<close>

definition Run_at :: "T \<Rightarrow> cint \<Rightarrow> cint \<Rightarrow> ptr \<Rightarrow> cint \<Rightarrow> ptr \<Rightarrow> ptr \<Rightarrow> ptr \<Rightarrow> nat \<Rightarrow> call" where
  "Run_at ty m n workspace lwork out_data ipiv_data info_data k =
     Run ty m n (out_data + of_nat k * (sizeof ty * scast (m * n))) m workspace lwork
       (ipiv_data + of_nat k * (4 * scast (std_min m n))) (info_data + of_nat k * 4)"

text \<open>
  The call that factorises matrix \<open>k\<close> of a batch of \<open>rows \<times> cols\<close> matrices where it lies:
  \<open>k * rows * cols\<close> elements into the output buffer, with its \<open>min rows cols\<close> pivots and its
  one info code at position \<open>k\<close> of the two \<^verbatim>\<open>int\<close> arrays.
\<close>

definition matrix_call ::
  "T \<Rightarrow> int64_t \<Rightarrow> int64_t \<Rightarrow> ptr \<Rightarrow> cint \<Rightarrow> ptr \<Rightarrow> ptr \<Rightarrow> ptr \<Rightarrow> nat \<Rightarrow> call" where
  "matrix_call ty rows cols workspace lwork out_data ipiv_data info_data k =
     Run ty (scast rows) (scast cols)
       (out_data + sizeof ty * (of_nat k * rows * cols)) (scast rows) workspace lwork
       (ipiv_data + 4 * (of_nat k * (if cols <s rows then cols else rows)))
       (info_data + 4 * of_nat k)"

text \<open>
  The copy of the whole batch from the input to the output buffer on the caller's stream;
  it is there only if the two buffers are different allocations.
\<close>

definition copy_call ::
  "gpuStream_t \<Rightarrow> T \<Rightarrow> int64_t \<Rightarrow> int64_t \<Rightarrow> int64_t \<Rightarrow> AnyBuffer \<Rightarrow> AnyBuffer \<Rightarrow> call list" where
  "copy_call stream ty batch rows cols a out =
     (if untyped_data a \<noteq> untyped_data out
      then [MemcpyAsync (untyped_data out) (untyped_data a) (sizeof ty * batch * rows * cols)
              stream]
      else [])"

text \<open>
  The calls of a looped dispatch that has got its workspace and has gone through \<open>c\<close>
  rounds of the loop, and the calls of a batched dispatch that has reached the batched run.
\<close>

definition looped_calls ::
  "gpuStream_t \<Rightarrow> T \<Rightarrow> int64_t \<Rightarrow> int64_t \<Rightarrow> int64_t \<Rightarrow> cint \<Rightarrow> ptr \<Rightarrow>
   AnyBuffer \<Rightarrow> AnyBuffer \<Rightarrow> Buffer_S32 \<Rightarrow> Buffer_S32 \<Rightarrow> nat \<Rightarrow> call list" where
  "looped_calls stream ty batch rows cols lwork workspace a out ipiv info c =
     [Borrow_Solver stream, BufferSize ty (scast rows) (scast cols) (scast rows),
      ScratchAllocate (sizeof ty * scast lwork)] @
     copy_call stream ty batch rows cols a out @
     map (Run_at ty (scast rows) (scast cols) workspace lwork
            (untyped_data out) (typed_data ipiv) (typed_data info)) [0..<c]"

definition pointer_calls ::
  "gpuStream_t \<Rightarrow> T \<Rightarrow> int64_t \<Rightarrow> int64_t \<Rightarrow> ptr \<Rightarrow> AnyBuffer \<Rightarrow> call list" where
  "pointer_calls stream ty batch cols workspace out =
     [MakeBatchPointers stream (untyped_data out) workspace batch
        (sizeof ty * scast (scast cols :: cint) * scast (scast cols :: cint)),
      GetLastError]"

definition batched_calls ::
  "gpuStream_t \<Rightarrow> T \<Rightarrow> int64_t \<Rightarrow> int64_t \<Rightarrow> ptr \<Rightarrow>
   AnyBuffer \<Rightarrow> AnyBuffer \<Rightarrow> Buffer_S32 \<Rightarrow> Buffer_S32 \<Rightarrow> call list" where
  "batched_calls stream ty batch cols workspace a out ipiv info =
     [Borrow_Blas stream, ScratchAllocate (8 * batch)] @
     copy_call stream ty batch cols cols a out @
     pointer_calls stream ty batch cols workspace out @
     [BatchedRun ty (scast cols) workspace (scast cols) (typed_data ipiv) (typed_data info)
        (ucast batch)]"

text \<open>
  The ways a looped dispatch can end, each with the error it returns and the calls it has
  issued by then: rejected by a cast, no handle, no workspace size, no scratch memory,
  stopped by a failed copy or run after \<open>c\<close> rounds, or completed.
\<close>

inductive looped_outcome ::
  "backend \<Rightarrow> gpuStream_t \<Rightarrow> T \<Rightarrow> int64_t \<Rightarrow> int64_t \<Rightarrow> int64_t \<Rightarrow>
   AnyBuffer \<Rightarrow> AnyBuffer \<Rightarrow> Buffer_S32 \<Rightarrow> Buffer_S32 \<Rightarrow> Error \<Rightarrow> call list \<Rightarrow> bool"
  for be stream ty batch rows cols a out ipiv info where
  rejected:
    "MaybeCastNoOverflow rows = Inl r \<or> MaybeCastNoOverflow cols = Inl r \<Longrightarrow>
     looped_outcome be stream ty batch rows cols a out ipiv info r []"
| no_handle:
    "code r = kUnknown \<Longrightarrow>
     looped_outcome be stream ty batch rows cols a out ipiv info r [Borrow_Solver stream]"
| no_size:
    "code r = kUnknown \<Longrightarrow>
     looped_outcome be stream ty batch rows cols a out ipiv info r
       [Borrow_Solver stream, BufferSize ty (scast rows) (scast cols) (scast rows)]"
| no_scratch:
    "Allocate be (sizeof ty * scast lw) = None \<Longrightarrow>
     looped_outcome be stream ty batch rows cols a out ipiv info
       (Error kUnknown ''Unable to allocate workspace for getrf'')
       [Borrow_Solver stream, BufferSize ty (scast rows) (scast cols) (scast rows),
        ScratchAllocate (sizeof ty * scast (lw :: cint))]"
| stopped:
    "Allocate be (sizeof ty * scast lw) = Some ws \<Longrightarrow> code r = kUnknown \<Longrightarrow>
     looped_outcome be stream ty batch rows cols a out ipiv info r
       (looped_calls stream ty batch rows cols lw ws a out ipiv info c)"
| completed:
    "Allocate be (sizeof ty * scast lw) = Some ws \<Longrightarrow> sint batch \<le> 2 ^ 31 - 1 \<Longrightarrow>
     looped_outcome be stream ty batch rows cols a out ipiv info Success
       (looped_calls stream ty batch rows cols lw ws a out ipiv info (nat (sint batch)))"

text \<open>The ways a batched dispatch can end.\<close>

inductive batched_outcome ::
  "backend \<Rightarrow> gpuStream_t \<Rightarrow> T \<Rightarrow> int64_t \<Rightarrow> int64_t \<Rightarrow>
   AnyBuffer \<Rightarrow> AnyBuffer \<Rightarrow> Buffer_S32 \<Rightarrow> Buffer_S32 \<Rightarrow> Error \<Rightarrow> call list \<Rightarrow> bool"
  for be stream ty batch cols a out ipiv info where
  rejected:
    "MaybeCastNoOverflow cols = Inl r \<Longrightarrow>
     batched_outcome be stream ty batch cols a out ipiv info r []"
| no_handle:
    "code r = kUnknown \<Longrightarrow>
     batched_outcome be stream ty batch cols a out ipiv info r [Borrow_Blas stream]"
| no_scratch:
    "Allocate be (8 * batch) = None \<Longrightarrow>
     batched_outcome be stream ty batch cols a out ipiv info
       (Error kUnknown ''Unable to allocate workspace for batched getrf'')
       [Borrow_Blas stream, ScratchAllocate (8 * batch)]"
| copy_failed:
    "Allocate be (8 * batch) = Some ws \<Longrightarrow> untyped_data a \<noteq> untyped_data out \<Longrightarrow>
     code r = kUnknown \<Longrightarrow>
     batched_outcome be stream ty batch cols a out ipiv info r
       ([Borrow_Blas stream, ScratchAllocate (8 * batch)] @
        copy_call stream ty batch cols cols a out)"
| launch_failed:
    "Allocate be (8 * batch) = Some ws \<Longrightarrow> code r = kUnknown \<Longrightarrow>
     batched_outcome be stream ty batch cols a out ipiv info r
       ([Borrow_Blas stream, ScratchAllocate (8 * batch)] @
        copy_call stream ty batch cols cols a out @
        pointer_calls stream ty batch cols ws out)"
| run_failed:
    "Allocate be (8 * batch) = Some ws \<Longrightarrow> code r = kUnknown \<Longrightarrow>
     batched_outcome be stream ty batch cols a out ipiv info r
       (batched_calls stream ty batch cols ws a out ipiv info)"
| completed:
    "Allocate be (8 * batch) = Some ws \<Longrightarrow>
     batched_outcome be stream ty batch cols a out ipiv info Success
       (batched_calls stream ty batch cols ws a out ipiv info)"

text \<open>
  The strategy test of the dispatcher, on the values of the three counts
  (\<open>div\<close> is integer division).
\<close>

definition batched_shape :: "int64_t \<Rightarrow> int64_t \<Rightarrow> int64_t \<Rightarrow> bool" where
  "batched_shape batch rows cols \<longleftrightarrow>
     1 < sint batch \<and> rows = cols \<and> sint rows div sint batch \<le> 128"

text \<open>Every pool and vendor call of a backend answers with success.\<close>

definition all_calls_ok :: "backend \<Rightarrow> bool" where
  "all_calls_ok be \<longleftrightarrow>
     (\<forall>s. SolverHandlePool_Borrow be s = OkStatus) \<and>
     (\<forall>s. BlasHandlePool_Borrow be s = OkStatus) \<and>
     (\<forall>ty m n lda. fst (getrf_bufferSize be ty m n lda) = OkStatus) \<and>
     (\<forall>d s c st. gpuMemcpyAsync be d s c st = OkStatus) \<and>
     (\<forall>ty m n a lda w lw p i. fst (getrf be ty m n a lda w lw p i) = OkStatus) \<and>
     gpuGetLastError be = OkStatus \<and>
     (\<forall>ty n a lda p i b. getrfBatched be ty n a lda p i b = OkStatus)"

text \<open>
  The copy of the whole batch, as one call, and the calls of a dispatch that come before
  its first factorisation.
\<close>

definition payload_copy ::
  "gpuStream_t \<Rightarrow> T \<Rightarrow> int64_t \<Rightarrow> int64_t \<Rightarrow> int64_t \<Rightarrow> AnyBuffer \<Rightarrow> AnyBuffer \<Rightarrow> call" where
  "payload_copy stream ty batch rows cols a out =
     MemcpyAsync (untyped_data out) (untyped_data a) (sizeof ty * batch * rows * cols) stream"

definition before_first_factorization :: "call list \<Rightarrow> call list" where
  "before_first_factorization tr = takeWhile (\<lambda>e. \<not> is_factorization e) tr"

subsection \<open>Concrete buffers and backends\<close>

definition buffer :: "DataType \<Rightarrow> int64_t list \<Rightarrow> ptr \<Rightarrow> AnyBuffer" where
  "buffer dt dims p = \<lparr>element_type = dt, dimensions = dims, untyped_data = p\<rparr>"

definition buffer_s32 :: "ptr \<Rightarrow> Buffer_S32" where
  "buffer_s32 p = \<lparr>typed_data = p\<rparr>"

text \<open>
  A backend in which every call succeeds: the workspace query answers 16 elements, the
  allocator hands out address 20480, and every factorisation writes info code \<open>info\<close>.
\<close>

definition good_backend :: "cint \<Rightarrow> backend" where
  "good_backend info =
     \<lparr>SolverHandlePool_Borrow = (\<lambda>_. OkStatus),
      BlasHandlePool_Borrow = (\<lambda>_. OkStatus),
      getrf_bufferSize = (\<lambda>_ _ _ _. (OkStatus, 16)),
      Allocate = (\<lambda>_. Some 20480),
      gpuMemcpyAsync = (\<lambda>_ _ _ _. OkStatus),
      getrf = (\<lambda>_ _ _ _ _ _ _ _ _. (OkStatus, info)),
      gpuGetLastError = OkStatus,
      getrfBatched = (\<lambda>_ _ _ _ _ _ _. OkStatus)\<rparr>"

text \<open>The same backend with a scratch allocator that returns empty.\<close>

definition no_scratch_backend :: backend where
  "no_scratch_backend = (good_backend 0)\<lparr>Allocate := (\<lambda>_. None)\<rparr>"

text \<open>The same backend with a single-matrix factorisation whose call fails.\<close>

definition failing_run_backend :: backend where
  "failing_run_backend =
     (good_backend 0)\<lparr>getrf := (\<lambda>_ _ _ _ _ _ _ _ _. (ErrorStatus ''execution failed'', 0))\<rparr>"

section \<open>Properties\<close>

subsection \<open>Words\<close>

lemma sint_scast_cint: "sint (scast (i :: cint) :: int64_t) = sint i"
  by (simp add: sint_up_scast is_up)

lemma sint_cint_bounds: "- (2 ^ 31) \<le> sint (i :: cint) \<and> sint i < 2 ^ 31"
  using sint_ge [of i] sint_lt [of i] by simp

lemma sint_cint_Suc: "sint (i :: cint) < 2 ^ 31 - 1 \<Longrightarrow> sint (i + 1) = sint i + 1"
  using sint_cint_bounds [of i]
  by (simp add: sint_word_add signed_take_bit_int_eq_self)

text \<open>The index holds the largest \<^verbatim>\<open>int\<close> exactly when its value is \<open>2 ^ 31 - 1\<close>.\<close>

lemma cint_max_iff: "(i = (2147483647 :: cint)) = (sint i = 2 ^ 31 - 1)"
proof
  assume "i = 2147483647"
  then show "sint i = 2 ^ 31 - 1" by simp
next
  assume "sint i = 2 ^ 31 - 1"
  then have "sint i = sint (2147483647 :: cint)" by simp
  then show "i = 2147483647" by (rule signed_word_eqI)
qed

text \<open>
  Truncating division by a divisor above 1 stays between 0 and the dividend, so it cannot
  leave the 64-bit range.
\<close>

lemma sdiv_nonneg: "0 \<le> a \<Longrightarrow> 1 < b \<Longrightarrow> (a::int) sdiv b = a div b"
  by (simp add: signed_divide_int_def sgn_if)

lemma sdiv_neg: "a < 0 \<Longrightarrow> 1 < b \<Longrightarrow> (a::int) sdiv b = - ((- a) div b)"
  by (simp add: signed_divide_int_def sgn_if)

lemma sdiv_neg_range:
  assumes "(a::int) < 0" "1 < b"
  shows "a \<le> a sdiv b \<and> a sdiv b \<le> 0"
proof -
  have "0 \<le> (- a) div b" using assms by (simp add: pos_imp_zdiv_nonneg_iff)
  moreover have "(- a) div b \<le> - a"
    using assms by (intro int_div_le_self) simp
  ultimately show ?thesis using assms by (simp add: sdiv_neg)
qed

lemma sdiv_nonneg_range:
  assumes "(0::int) \<le> a" "1 < b"
  shows "0 \<le> a sdiv b \<and> a sdiv b \<le> a"
proof (cases "a = 0")
  case True
  then show ?thesis by simp
next
  case False
  with assms have "a div b \<le> a" by (intro int_div_le_self) simp
  with assms show ?thesis by (simp add: sdiv_nonneg pos_imp_zdiv_nonneg_iff)
qed

lemma sint_sdiv64:
  assumes "1 < sint b"
  shows "sint (sdiv64 a b) = sint a sdiv sint b"
proof -
  have r: "- (2 ^ 63) \<le> sint a" "sint a < 2 ^ 63"
    using sint_ge [of a] sint_lt [of a] by simp_all
  have "- (2 ^ 63) \<le> sint a sdiv sint b \<and> sint a sdiv sint b < 2 ^ 63"
  proof (cases "0 \<le> sint a")
    case True
    from sdiv_nonneg_range [OF True assms] r show ?thesis by linarith
  next
    case False
    then have "sint a < 0" by simp
    from sdiv_neg_range [OF this assms] r show ?thesis by linarith
  qed
  then show ?thesis
    by (simp add: sdiv64_def sint_sbintrunc' signed_take_bit_int_eq_self)
qed

text \<open>
  The test of the dispatcher, written with the signed 64-bit operations of C++, is the
  test on the integer values; for a negative row count both quotients are at most 0.
\<close>

lemma guard_iff:
  "(1 <s batch \<and> rows = cols \<and> sdiv64 rows batch \<le>s 128) = batched_shape batch rows cols"
proof (cases "1 < sint batch")
  case False
  then show ?thesis by (simp add: batched_shape_def word_sless_alt)
next
  case True
  have "(sint rows sdiv sint batch \<le> 128) = (sint rows div sint batch \<le> 128)"
  proof (cases "0 \<le> sint rows")
    case T: True
    then show ?thesis using True by (simp add: sdiv_nonneg)
  next
    case F: False
    then have neg: "sint rows < 0" by simp
    from neg True have "sint rows div sint batch < 0"
      by (simp add: neg_imp_zdiv_neg_iff div_neg_pos_less0)
    with sdiv_neg_range [OF neg True] show ?thesis by simp
  qed
  with True show ?thesis
    by (simp add: batched_shape_def word_sless_alt word_sle_eq sint_sdiv64)
qed

subsection \<open>The loop of GetrfImpl\<close>

lemma Run_at_shift:
  "Run_at ty m n ws lwork (od + sizeof ty * scast (m * n)) (pd + 4 * scast (std_min m n)) (nd + 4) k
   = Run_at ty m n ws lwork od pd nd (Suc k)"
  by (simp add: Run_at_def algebra_simps)

lemma Run_at_0: "Run_at ty m n ws lwork od pd nd 0 = Run ty m n od m ws lwork pd nd"
  by (simp add: Run_at_def)

text \<open>
  Total correctness for a batch count that an \<^verbatim>\<open>int\<close> can reach: if every run succeeds, the
  loop returns after one run per remaining matrix.
\<close>

lemma loop_all_ok:
  assumes ok: "\<And>p q s. fst (getrf be ty m n p m ws lwork q s) = OkStatus"
      and small: "sint batch \<le> 2 ^ 31 - 1"
  shows "GetrfImpl_loop be ty batch m n ws lwork i od pd nd tr =
         Some (Success, tr @ map (Run_at ty m n ws lwork od pd nd) [0..<nat (sint batch - sint i)])"
proof (induction "nat (sint batch - sint i)" arbitrary: i od pd nd tr)
  case 0
  then have "\<not> scast i <s batch"
    by (simp add: word_sless_alt sint_scast_cint)
  with 0 show ?case
    by (subst GetrfImpl_loop.simps) simp
next
  case (Suc c)
  then have lt: "sint i < sint batch" by linarith
  then have cond: "scast i <s batch"
    by (simp add: word_sless_alt sint_scast_cint)
  from lt small have nxt: "sint (i + 1) = sint i + 1"
    by (intro sint_cint_Suc) linarith
  from lt small have ne: "i \<noteq> 2147483647"
    by (simp add: cint_max_iff)
  from nxt Suc.hyps(2) have c: "c = nat (sint batch - sint (i + 1))" by linarith
  have cnt: "nat (sint batch - sint i) = Suc c" using Suc.hyps(2) by simp
  show ?case
    apply (subst GetrfImpl_loop.simps)
    apply (simp only: cond if_True ok Status.case ne if_False)
    apply (subst Suc.hyps(1) [OF c])
    apply (simp only: c [symmetric] cnt map_upt_Suc Run_at_0)
    apply (simp add: Run_at_shift)
    done
qed

text \<open>
  Partial correctness for every batch count: whenever the loop returns, it has issued the
  runs of its first \<open>c\<close> rounds and nothing else; it returns success only for a batch count
  that an \<^verbatim>\<open>int\<close> can reach, after one run per remaining matrix, and otherwise the error of
  the run that failed.
\<close>

lemma loop_result:
  assumes "GetrfImpl_loop be ty batch m n ws lwork i od pd nd tr = Some y"
  shows "\<exists>c. snd y = tr @ map (Run_at ty m n ws lwork od pd nd) [0..<c] \<and>
             (fst y = Success \<or> (\<exists>msg. fst y = Error kUnknown msg \<and> 0 < c)) \<and>
             (fst y = Success \<longrightarrow> sint batch \<le> 2 ^ 31 - 1 \<and> c = nat (sint batch - sint i))"
  using assms
proof (induction be ty batch m n ws lwork i od pd nd tr rule: GetrfImpl_loop.induct)
  case (1 be ty batch m n ws lwork i od pd nd tr)
  note eq = "1.prems" [unfolded GetrfImpl_loop.simps [of be ty batch m n ws lwork i od pd nd tr]]
  show ?case
  proof (cases "scast i <s batch")
    case False
    with eq have "y = (Success, tr)" by simp
    moreover from False have "sint batch \<le> sint i"
      by (simp add: word_sless_alt sint_scast_cint)
    moreover from this have "sint batch \<le> 2 ^ 31 - 1"
      using sint_cint_bounds [of i] by linarith
    ultimately show ?thesis
      by (intro exI [of _ 0]) simp
  next
    case True
    then have lt: "sint i < sint batch"
      by (simp add: word_sless_alt sint_scast_cint)
    show ?thesis
    proof (cases "fst (getrf be ty m n od m ws lwork pd nd)")
      case (ErrorStatus msg)
      with True eq have "y = (Error kUnknown msg, tr @ [Run ty m n od m ws lwork pd nd])"
        by simp
      then show ?thesis
        by (intro exI [of _ 1]) (simp add: Run_at_0 Success_def)
    next
      case OkStatus
      with True eq have ne: "i \<noteq> 2147483647"
        by (auto split: if_splits)
      with OkStatus True eq have "GetrfImpl_loop be ty batch m n ws lwork (i + 1)
               (od + sizeof ty * scast (m * n)) (pd + 4 * scast (std_min m n)) (nd + 4)
               (tr @ [Run ty m n od m ws lwork pd nd]) = Some y"
        by simp
      from "1.IH" [OF True OkStatus ne this] obtain c where
        c: "snd y = (tr @ [Run ty m n od m ws lwork pd nd]) @
              map (Run_at ty m n ws lwork (od + sizeof ty * scast (m * n))
                     (pd + 4 * scast (std_min m n)) (nd + 4)) [0..<c]"
        and r: "fst y = Success \<or> (\<exists>msg. fst y = Error kUnknown msg \<and> 0 < c)"
        and n: "fst y = Success \<longrightarrow>
                sint batch \<le> 2 ^ 31 - 1 \<and> c = nat (sint batch - sint (i + 1))"
        by blast
      have tr: "snd y = tr @ map (Run_at ty m n ws lwork od pd nd) [0..<Suc c]"
        unfolding c by (simp only: map_upt_Suc Run_at_0) (simp add: Run_at_shift)
      have cnt: "sint batch \<le> 2 ^ 31 - 1 \<and> Suc c = nat (sint batch - sint i)"
        if "fst y = Success"
      proof -
        from n that have small: "sint batch \<le> 2 ^ 31 - 1"
          and c': "c = nat (sint batch - sint (i + 1))" by simp_all
        from lt small have "sint (i + 1) = sint i + 1"
          by (intro sint_cint_Suc) linarith
        with c' small lt show ?thesis by simp
      qed
      from r have r': "fst y = Success \<or> (\<exists>msg. fst y = Error kUnknown msg \<and> 0 < Suc c)"
        by auto
      from tr r' cnt show ?thesis
        by (intro exI [of _ "Suc c"]) blast
    qed
  qed
qed

subsection \<open>Outcomes of the two implementations\<close>

lemma cast_Inr: "MaybeCastNoOverflow v = Inr m \<Longrightarrow> m = scast v"
  by (simp add: MaybeCastNoOverflow_def split: if_splits)

lemma cast_Inl: "MaybeCastNoOverflow v = Inl e \<Longrightarrow> code e = kInvalidArgument"
  by (auto simp: MaybeCastNoOverflow_def split: if_splits)

lemma AsFfiError_code: "st \<noteq> OkStatus \<Longrightarrow> code (AsFfiError st) = kUnknown"
  by (cases st) simp_all

lemma GetrfImpl_outcome:
  assumes "GetrfImpl be ty batch rows cols stream a out ipiv info tr0 = Some (r, tr)"
  shows "\<exists>es. tr = tr0 @ es \<and> looped_outcome be stream ty batch rows cols a out ipiv info r es"
proof (cases "MaybeCastNoOverflow rows")
  case (Inl e)
  with assms show ?thesis
    by (auto simp: GetrfImpl_def looped_outcome.rejected)
next
  case m: (Inr m)
  show ?thesis
  proof (cases "MaybeCastNoOverflow cols")
    case (Inl e)
    with assms m show ?thesis
      by (auto simp: GetrfImpl_def looped_outcome.rejected)
  next
    case n: (Inr n)
    note mn = cast_Inr [OF m] cast_Inr [OF n]
    show ?thesis
    proof (cases "SolverHandlePool_Borrow be stream")
      case (ErrorStatus msg)
      with assms m n show ?thesis
        by (auto simp: GetrfImpl_def looped_outcome.no_handle)
    next
      case borrow: OkStatus
      show ?thesis
      proof (cases "fst (getrf_bufferSize be ty m n m)")
        case (ErrorStatus msg)
        with assms m n borrow mn show ?thesis
          by (auto simp: GetrfImpl_def looped_outcome.no_size)
      next
        case size: OkStatus
        define lw where "lw = snd (getrf_bufferSize be ty m n m)"
        let ?pre = "[Borrow_Solver stream, BufferSize ty m n m,
                     ScratchAllocate (sizeof ty * scast lw)]"
        show ?thesis
        proof (cases "Allocate be (sizeof ty * scast lw)")
          case None
          with assms m n borrow size have
            "r = Error kUnknown ''Unable to allocate workspace for getrf''" "tr = tr0 @ ?pre"
            by (simp_all add: GetrfImpl_def lw_def Let_def)
          moreover from None have "looped_outcome be stream ty batch rows cols a out ipiv info
              (Error kUnknown ''Unable to allocate workspace for getrf'')
              [Borrow_Solver stream, BufferSize ty (scast rows) (scast cols) (scast rows),
               ScratchAllocate (sizeof ty * scast lw)]"
            by (rule looped_outcome.no_scratch)
          ultimately show ?thesis using mn by simp
        next
          case (Some ws)
          let ?copy = "MemcpyAsync (untyped_data out) (untyped_data a)
                         (sizeof ty * batch * rows * cols) stream"
          let ?st = "gpuMemcpyAsync be (untyped_data out) (untyped_data a)
                          (sizeof ty * batch * rows * cols) stream"
          show ?thesis
          proof (cases "untyped_data a \<noteq> untyped_data out \<and> ?st \<noteq> OkStatus")
            case True
            then obtain msg where "?st = ErrorStatus msg"
              by (cases ?st) auto
            with True assms m n borrow size Some have
              "r = Error kUnknown msg" "tr = tr0 @ ?pre @ [?copy]"
              by (simp_all add: GetrfImpl_def lw_def Let_def)
            with True mn have "code r = kUnknown"
              "tr = tr0 @ looped_calls stream ty batch rows cols lw ws a out ipiv info 0"
              by (simp_all add: looped_calls_def copy_call_def)
            from looped_outcome.stopped [OF Some this(1), where c = 0] this(2) show ?thesis
              by (intro exI [of _ "looped_calls stream ty batch rows cols lw ws a out ipiv info 0"]) simp
          next
            case False
            with assms m n borrow size Some have
              "GetrfImpl_loop be ty batch m n ws lw 0 (untyped_data out) (typed_data ipiv)
                 (typed_data info) ((tr0 @ ?pre) @ copy_call stream ty batch rows cols a out) =
               Some (r, tr)"
              by (auto simp: GetrfImpl_def lw_def Let_def copy_call_def split: Status.splits)
            from loop_result [OF this] obtain c where
              tr: "tr = ((tr0 @ ?pre) @ copy_call stream ty batch rows cols a out) @
                    map (Run_at ty m n ws lw (untyped_data out) (typed_data ipiv)
                           (typed_data info)) [0..<c]"
              and r: "r = Success \<or> (\<exists>msg. r = Error kUnknown msg \<and> 0 < c)"
              and ok: "r = Success \<longrightarrow> sint batch \<le> 2 ^ 31 - 1 \<and> c = nat (sint batch - sint (0 :: cint))"
              by auto
            from tr mn have tr': "tr = tr0 @ looped_calls stream ty batch rows cols lw ws a out ipiv info c"
              by (simp add: looped_calls_def)
            from r show ?thesis
            proof
              assume s: "r = Success"
              with ok have "sint batch \<le> 2 ^ 31 - 1" "c = nat (sint batch)" by simp_all
              from looped_outcome.completed [OF Some this(1)] this(2) s tr' show ?thesis
                by (intro exI [of _ "looped_calls stream ty batch rows cols lw ws a out ipiv info c"]) simp
            next
              assume "\<exists>msg. r = Error kUnknown msg \<and> 0 < c"
              then have "code r = kUnknown" by auto
              from looped_outcome.stopped [OF Some this, where c = c] tr' show ?thesis
                by (intro exI [of _ "looped_calls stream ty batch rows cols lw ws a out ipiv info c"]) simp
            qed
          qed
        qed
      qed
    qed
  qed
qed

lemma GetrfBatchedImpl_outcome:
  assumes "GetrfBatchedImpl be ty batch cols stream a out ipiv info tr0 = (r, tr)"
  shows "\<exists>es. tr = tr0 @ es \<and> batched_outcome be stream ty batch cols a out ipiv info r es"
proof (cases "MaybeCastNoOverflow cols")
  case (Inl e)
  with assms show ?thesis
    by (auto simp: GetrfBatchedImpl_def batched_outcome.rejected)
next
  case n: (Inr n)
  note n' = cast_Inr [OF n]
  show ?thesis
  proof (cases "BlasHandlePool_Borrow be stream")
    case (ErrorStatus msg)
    with assms n show ?thesis
      by (auto simp: GetrfBatchedImpl_def batched_outcome.no_handle)
  next
    case borrow: OkStatus
    show ?thesis
    proof (cases "Allocate be (8 * batch)")
      case None
      with assms n borrow show ?thesis
        by (auto simp: GetrfBatchedImpl_def Let_def batched_outcome.no_scratch)
    next
      case (Some ws)
      let ?pre = "[Borrow_Blas stream, ScratchAllocate (8 * batch)]"
      let ?cp = "gpuMemcpyAsync be (untyped_data out) (untyped_data a)
                   (sizeof ty * batch * cols * cols) stream"
      let ?run = "getrfBatched be ty n ws n (typed_data ipiv) (typed_data info) (ucast batch)"
      consider (copy) "untyped_data a \<noteq> untyped_data out" "?cp \<noteq> OkStatus"
        | (launch) "\<not> (untyped_data a \<noteq> untyped_data out \<and> ?cp \<noteq> OkStatus)"
                   "gpuGetLastError be \<noteq> OkStatus"
        | (run) "\<not> (untyped_data a \<noteq> untyped_data out \<and> ?cp \<noteq> OkStatus)"
                   "gpuGetLastError be = OkStatus" "?run \<noteq> OkStatus"
        | (ok) "\<not> (untyped_data a \<noteq> untyped_data out \<and> ?cp \<noteq> OkStatus)"
                   "gpuGetLastError be = OkStatus" "?run = OkStatus"
        by blast
      then show ?thesis
      proof cases
        case copy
        with assms n borrow Some have r: "r = AsFfiError ?cp"
          and tr: "tr = tr0 @ ?pre @ copy_call stream ty batch cols cols a out"
          by (simp_all add: GetrfBatchedImpl_def Let_def copy_call_def)
        from r AsFfiError_code [OF copy(2)] have "code r = kUnknown" by simp
        from batched_outcome.copy_failed [OF Some copy(1) this] tr show ?thesis by simp
      next
        case launch
        with assms n borrow Some n' have r: "r = AsFfiError (gpuGetLastError be)"
          and tr: "tr = tr0 @ ?pre @ copy_call stream ty batch cols cols a out @
                pointer_calls stream ty batch cols ws out"
          by (auto simp: GetrfBatchedImpl_def Let_def copy_call_def pointer_calls_def)
        from r AsFfiError_code [OF launch(2)] have "code r = kUnknown" by simp
        from batched_outcome.launch_failed [OF Some this] tr show ?thesis by simp
      next
        case run
        with assms n borrow Some n' have r: "r = AsFfiError ?run"
          and tr: "tr = tr0 @ batched_calls stream ty batch cols ws a out ipiv info"
          by (auto simp: GetrfBatchedImpl_def Let_def copy_call_def pointer_calls_def
                batched_calls_def)
        from r AsFfiError_code [OF run(3)] have "code r = kUnknown" by simp
        from batched_outcome.run_failed [OF Some this] tr show ?thesis by simp
      next
        case ok
        with assms n borrow Some n' have r: "r = Success"
          and tr: "tr = tr0 @ batched_calls stream ty batch cols ws a out ipiv info"
          by (auto simp: GetrfBatchedImpl_def Let_def copy_call_def pointer_calls_def
                batched_calls_def)
        from batched_outcome.completed [OF Some] r tr show ?thesis by simp
      qed
    qed
  qed
qed


subsection \<open>The dispatcher on a supported element type\<close>

lemma GetrfDispatch_supported:
  assumes "element_type out = element_type a"
    and "looped_kernel (element_type a) = Some tlp"
    and "batched_kernel (element_type a) = Some tbt"
    and "SplitBatch2D (dimensions a) = Inr (batch, rows, cols)"
  shows "GetrfDispatch be stream a out ipiv info tr =
     (if batched_shape batch rows cols
      then Some (GetrfBatchedImpl be tbt batch cols stream a out ipiv info tr)
      else GetrfImpl be tlp batch rows cols stream a out ipiv info tr)"
  using assms
  by (cases "element_type a") (simp_all add: GetrfDispatch_def guard_iff)

lemma GetrfDispatch_unsupported:
  assumes "element_type out = element_type a"
    and "looped_kernel (element_type a) = None"
    and "SplitBatch2D (dimensions a) = Inr (batch, rows, cols)"
  shows "GetrfDispatch be stream a out ipiv info tr =
         Some (Error kInvalidArgument ''Unsupported element type for getrf'', tr)"
  using assms
  by (cases "element_type a") (simp_all add: GetrfDispatch_def)

lemma kernels_agree: "(looped_kernel dt = None) = (batched_kernel dt = None)"
  by (cases dt) simp_all

lemma sizeof_kernels:
  "looped_kernel dt = Some tlp \<Longrightarrow> batched_kernel dt = Some tbt \<Longrightarrow> sizeof tbt = sizeof tlp"
  by (cases dt) auto

subsection \<open>Outcomes of the dispatcher\<close>

lemma SplitBatch2D_Inl: "SplitBatch2D dims = Inl e \<Longrightarrow> code e = kInvalidArgument"
  by (auto simp: SplitBatch2D_def split: if_splits)

lemma GetrfDispatch_outcome:
  assumes "GetrfDispatch be stream a out ipiv info tr0 = Some (r, tr)"
  obtains (rejected) "code r = kInvalidArgument" "tr = tr0"
    | (batched) batch rows cols ty es where
        "element_type out = element_type a"
        "SplitBatch2D (dimensions a) = Inr (batch, rows, cols)"
        "batched_kernel (element_type a) = Some ty"
        "batched_shape batch rows cols"
        "tr = tr0 @ es"
        "batched_outcome be stream ty batch cols a out ipiv info r es"
    | (looped) batch rows cols ty es where
        "element_type out = element_type a"
        "SplitBatch2D (dimensions a) = Inr (batch, rows, cols)"
        "looped_kernel (element_type a) = Some ty"
        "\<not> batched_shape batch rows cols"
        "tr = tr0 @ es"
        "looped_outcome be stream ty batch rows cols a out ipiv info r es"
proof (cases "element_type a = element_type out")
  case False
  with assms have "code r = kInvalidArgument" "tr = tr0"
    by (auto simp: GetrfDispatch_def)
  then show ?thesis by (rule rejected)
next
  case same: True
  show ?thesis
  proof (cases "SplitBatch2D (dimensions a)")
    case (Inl e)
    with assms same SplitBatch2D_Inl [OF Inl] have "code r = kInvalidArgument" "tr = tr0"
      by (auto simp: GetrfDispatch_def)
    then show ?thesis by (rule rejected)
  next
    case (Inr t)
    then obtain batch rows cols where split: "SplitBatch2D (dimensions a) = Inr (batch, rows, cols)"
      by (cases t) auto
    show ?thesis
    proof (cases "looped_kernel (element_type a)")
      case None
      from GetrfDispatch_unsupported [OF same [symmetric] None split] assms
      have "code r = kInvalidArgument" "tr = tr0" by auto
      then show ?thesis by (rule rejected)
    next
      case (Some tlp)
      with kernels_agree [of "element_type a"] obtain tbt where
        tbt: "batched_kernel (element_type a) = Some tbt" by auto
      note eq = GetrfDispatch_supported [OF same [symmetric] Some tbt split, of be stream ipiv info tr0]
      show ?thesis
      proof (cases "batched_shape batch rows cols")
        case True
        with eq assms have "GetrfBatchedImpl be tbt batch cols stream a out ipiv info tr0 = (r, tr)"
          by simp
        from GetrfBatchedImpl_outcome [OF this] obtain es where
          "tr = tr0 @ es" "batched_outcome be stream tbt batch cols a out ipiv info r es" by blast
        with same split tbt True show ?thesis by (intro batched) simp_all
      next
        case False
        with eq assms have "GetrfImpl be tlp batch rows cols stream a out ipiv info tr0 = Some (r, tr)"
          by simp
        from GetrfImpl_outcome [OF this] obtain es where
          "tr = tr0 @ es" "looped_outcome be stream tlp batch rows cols a out ipiv info r es" by blast
        with same split Some False show ?thesis by (intro looped) simp_all
      qed
    qed
  qed
qed

lemma looped_outcome_code:
  assumes "looped_outcome be stream ty batch rows cols a out ipiv info r es"
  shows "r = Success \<or> code r = kInvalidArgument \<or> code r = kUnknown"
  using assms by cases (auto dest: cast_Inl)

lemma batched_outcome_code:
  assumes "batched_outcome be stream ty batch cols a out ipiv info r es"
  shows "r = Success \<or> code r = kInvalidArgument \<or> code r = kUnknown"
  using assms by cases (auto dest: cast_Inl)

lemma cast_overflow:
  "2 ^ 31 - 1 < sint v \<Longrightarrow>
   MaybeCastNoOverflow v =
     Inl (Error kInvalidArgument ''Value exceeds the representable range of the desired type'')"
  by (simp add: MaybeCastNoOverflow_def)

lemma GetrfImpl_overflow:
  assumes "2 ^ 31 - 1 < sint rows \<or> 2 ^ 31 - 1 < sint cols"
  shows "\<exists>msg. GetrfImpl be ty batch rows cols stream a out ipiv info tr =
               Some (Error kInvalidArgument msg, tr)"
proof (cases "2 ^ 31 - 1 < sint rows")
  case True
  then show ?thesis by (simp add: GetrfImpl_def cast_overflow)
next
  case False
  with assms have "2 ^ 31 - 1 < sint cols" by simp
  then show ?thesis
    by (cases "MaybeCastNoOverflow rows")
       (auto simp: GetrfImpl_def cast_overflow MaybeCastNoOverflow_def split: if_splits)
qed

lemma GetrfBatchedImpl_overflow:
  assumes "2 ^ 31 - 1 < sint cols"
  shows "\<exists>msg. GetrfBatchedImpl be ty batch cols stream a out ipiv info tr =
               (Error kInvalidArgument msg, tr)"
  using assms by (simp add: GetrfBatchedImpl_def cast_overflow)

lemmas concrete_defs = GetrfDispatch_def GetrfImpl_def GetrfBatchedImpl_def buffer_def
  buffer_s32_def good_backend_def no_scratch_backend_def failing_run_backend_def
  SplitBatch2D_def sdiv64_def MaybeCastNoOverflow_def std_min_def Success_def Let_def
  word_sless_alt word_sle_eq signed_divide_int_def

subsection \<open>What the lists of calls contain\<close>








lemma batched_shape_square: "batched_shape batch rows cols \<Longrightarrow> rows = cols"
  by (simp add: batched_shape_def)

lemma batched_completed_calls:
  assumes "GetrfBatchedImpl be ty batch cols stream a out ipiv info [] = (Success, tr)"
  shows "\<exists>ws. Allocate be (8 * batch) = Some ws \<and>
              tr = batched_calls stream ty batch cols ws a out ipiv info"
proof -
  from GetrfBatchedImpl_outcome [OF assms] have
    "batched_outcome be stream ty batch cols a out ipiv info Success tr" by simp
  then show ?thesis
    by cases (auto simp: Success_def dest: cast_Inl)
qed

subsection \<open>Runs in which every call succeeds\<close>

lemma sint_scast_fits:
  assumes "- (2 ^ 31) \<le> sint (v :: int64_t)" "sint v \<le> 2 ^ 31 - 1"
  shows "sint (scast v :: cint) = sint v"
proof -
  have "sint (scast v :: cint) = signed_take_bit 31 (sint v)"
    by (simp add: signed_scast_eq)
  also have "\<dots> = sint v"
    using assms by (intro signed_take_bit_int_eq_self) simp_all
  finally show ?thesis .
qed

lemma scast_scast_fits:
  assumes "- (2 ^ 31) \<le> sint (v :: int64_t)" "sint v \<le> 2 ^ 31 - 1"
  shows "(scast (scast v :: cint) :: int64_t) = v"
proof -
  have "sint (scast (scast v :: cint) :: int64_t) = sint v"
    using sint_scast_fits [OF assms] by (simp add: sint_scast_cint)
  then show ?thesis by (rule signed_word_eqI)
qed

lemma cast_fits:
  assumes "- (2 ^ 31) \<le> sint v" "sint v \<le> 2 ^ 31 - 1"
  shows "MaybeCastNoOverflow v = Inr (scast v)"
  using assms by (simp add: MaybeCastNoOverflow_def)

text \<open>The cursor steps of the loop when the element count of a matrix fits an int.\<close>

lemma matrix_step:
  assumes "0 \<le> sint rows" "0 \<le> sint cols" "sint rows * sint cols \<le> 2 ^ 31 - 1"
    and "sint rows \<le> 2 ^ 31 - 1" "sint cols \<le> 2 ^ 31 - 1"
  shows "(scast (scast rows * scast cols :: cint) :: int64_t) = rows * cols"
proof -
  have r: "sint (scast rows :: cint) = sint rows" and c: "sint (scast cols :: cint) = sint cols"
    using assms by (simp_all add: sint_scast_fits)
  have nn: "0 \<le> sint rows * sint cols" using assms by simp
  have lo: "- (2 ^ 31) \<le> sint rows * sint cols" "- (2 ^ 63) \<le> sint rows * sint cols"
    by (rule order_trans [OF _ nn], simp)+
  have hi: "sint rows * sint cols < 2 ^ 31" "sint rows * sint cols < 2 ^ 63"
    using assms(3) by simp_all
  have "signed_take_bit 31 (sint rows * sint cols) = sint rows * sint cols"
    using lo hi by (intro signed_take_bit_int_eq_self)
  then have "sint (scast rows * scast cols :: cint) = sint rows * sint cols"
    by (simp add: sint_word_mult r c)
  then have "sint (scast (scast rows * scast cols :: cint) :: int64_t) = sint rows * sint cols"
    by (simp add: sint_scast_cint)
  moreover have "signed_take_bit 63 (sint rows * sint cols) = sint rows * sint cols"
    using lo hi by (intro signed_take_bit_int_eq_self)
  then have "sint (rows * cols) = sint rows * sint cols"
    by (simp add: sint_word_mult)
  ultimately have "sint (scast (scast rows * scast cols :: cint) :: int64_t) = sint (rows * cols)"
    by simp
  then show ?thesis by (rule signed_word_eqI)
qed

lemma pivot_step:
  assumes "- (2 ^ 31) \<le> sint rows" "sint rows \<le> 2 ^ 31 - 1"
    and "- (2 ^ 31) \<le> sint cols" "sint cols \<le> 2 ^ 31 - 1"
  shows "(scast (std_min (scast rows) (scast cols)) :: int64_t) =
         (if cols <s rows then cols else rows)"
  using assms
  by (simp add: std_min_def word_sless_alt sint_scast_fits scast_scast_fits)

lemma Run_at_matrix_call:
  assumes "0 \<le> sint rows" "0 \<le> sint cols" "sint rows * sint cols \<le> 2 ^ 31 - 1"
    and "sint rows \<le> 2 ^ 31 - 1" "sint cols \<le> 2 ^ 31 - 1"
  shows "Run_at ty (scast rows) (scast cols) ws lw od pd nd k =
         matrix_call ty rows cols ws lw od pd nd k"
proof -
  have "(scast (std_min (scast rows) (scast cols)) :: int64_t) =
         (if cols <s rows then cols else rows)"
    using assms by (intro pivot_step) simp_all
  with matrix_step [OF assms] show ?thesis
    by (simp add: Run_at_def matrix_call_def algebra_simps)
qed

text \<open>
  With every call answering success and the scratch memory granted, the looped
  implementation returns success after one run per matrix (for a batch count that an
  \<^verbatim>\<open>int\<close> can reach), and the batched implementation after its one batched run.
\<close>

lemma GetrfImpl_all_ok:
  assumes ok: "all_calls_ok be"
    and m: "MaybeCastNoOverflow rows = Inr m"
    and n: "MaybeCastNoOverflow cols = Inr n"
    and alloc: "Allocate be (sizeof ty * scast (snd (getrf_bufferSize be ty m n m))) = Some ws"
    and small: "sint batch \<le> 2 ^ 31 - 1"
  shows "GetrfImpl be ty batch rows cols stream a out ipiv info [] =
         Some (Success,
               looped_calls stream ty batch rows cols (snd (getrf_bufferSize be ty m n m)) ws
                 a out ipiv info (nat (sint batch)))"
proof -
  define lw where "lw = snd (getrf_bufferSize be ty m n m)"
  have run: "\<And>p q s. fst (getrf be ty m n p m ws lw q s) = OkStatus"
    using ok by (simp add: all_calls_ok_def)
  have loop: "GetrfImpl_loop be ty batch m n ws lw 0 od pd nd tr =
         Some (Success, tr @ map (Run_at ty m n ws lw od pd nd) [0..<nat (sint batch)])"
    for od pd nd tr
    using loop_all_ok [of be ty m n ws lw batch 0, OF run small] by simp
  from ok have "SolverHandlePool_Borrow be stream = OkStatus"
    "fst (getrf_bufferSize be ty m n m) = OkStatus"
    "gpuMemcpyAsync be (untyped_data out) (untyped_data a) (sizeof ty * batch * rows * cols) stream
       = OkStatus"
    by (simp_all add: all_calls_ok_def)
  with m n alloc have
    "GetrfImpl be ty batch rows cols stream a out ipiv info [] =
     Some (Success,
       [Borrow_Solver stream, BufferSize ty m n m, ScratchAllocate (sizeof ty * scast lw)] @
       copy_call stream ty batch rows cols a out @
       map (Run_at ty m n ws lw (untyped_data out) (typed_data ipiv) (typed_data info))
         [0..<nat (sint batch)])"
    by (simp add: GetrfImpl_def Let_def loop copy_call_def lw_def [symmetric])
  then show ?thesis
    using cast_Inr [OF m] cast_Inr [OF n] by (simp add: looped_calls_def lw_def)
qed

lemma GetrfBatchedImpl_all_ok:
  assumes ok: "all_calls_ok be"
    and n: "MaybeCastNoOverflow cols = Inr n"
    and alloc: "Allocate be (8 * batch) = Some ws"
  shows "GetrfBatchedImpl be ty batch cols stream a out ipiv info [] =
         (Success, batched_calls stream ty batch cols ws a out ipiv info)"
proof -
  from ok have "BlasHandlePool_Borrow be stream = OkStatus"
    "gpuMemcpyAsync be (untyped_data out) (untyped_data a) (sizeof ty * batch * cols * cols) stream
       = OkStatus"
    "gpuGetLastError be = OkStatus"
    "getrfBatched be ty n ws n (typed_data ipiv) (typed_data info) (ucast batch) = OkStatus"
    by (simp_all add: all_calls_ok_def)
  with n alloc cast_Inr [OF n] show ?thesis
    by (simp add: GetrfBatchedImpl_def Let_def batched_calls_def copy_call_def pointer_calls_def)
qed

text \<open>Narrowing a batch count that fits an \<^verbatim>\<open>int\<close> keeps its value.\<close>

lemma narrowed_same:
  assumes "- (2 ^ 31) \<le> sint (batch :: int64_t)" "sint batch \<le> 2 ^ 31 - 1"
  shows "sint (ucast batch :: cint) = sint batch"
proof -
  have "(ucast batch :: cint) = scast batch"
    by (simp add: down_cast_same is_down)
  with sint_scast_fits [OF assms] show ?thesis by simp
qed

lemma factorizations_looped_calls:
  "filter is_factorization (looped_calls stream ty batch rows cols lw ws a out ipiv info c) =
   map (Run_at ty (scast rows) (scast cols) ws lw (untyped_data out) (typed_data ipiv)
          (typed_data info)) [0..<c]"
  by (simp add: looped_calls_def copy_call_def Run_at_def filter_map comp_def)

text \<open>
  A batch count above the largest \<^verbatim>\<open>int\<close>: the widened index stays below it, so a loop
  whose runs all succeed comes to the increment of an index that holds the largest \<^verbatim>\<open>int\<close>,
  where the behaviour is undefined.
\<close>

lemma loop_undefined:
  assumes ok: "\<And>p q s. fst (getrf be ty m n p m ws lwork q s) = OkStatus"
    and big: "2 ^ 31 - 1 < sint batch"
  shows "GetrfImpl_loop be ty batch m n ws lwork i od pd nd tr = None"
proof (induction "nat (2 ^ 31 - 1 - sint i)" arbitrary: i od pd nd tr)
  case 0
  with sint_cint_bounds [of i] have "sint i = 2 ^ 31 - 1" by simp
  then have mx: "i = 2147483647" by (simp add: cint_max_iff)
  from big sint_cint_bounds [of i] have cond: "scast i <s batch"
    by (simp add: word_sless_alt sint_scast_cint)
  show ?case
    apply (subst GetrfImpl_loop.simps)
    apply (simp only: cond if_True ok Status.case)
    apply (simp add: mx)
    done
next
  case (Suc c)
  then have lt: "sint i < 2 ^ 31 - 1" by linarith
  then have ne: "i \<noteq> 2147483647" by (simp add: cint_max_iff)
  from big sint_cint_bounds [of i] have cond: "scast i <s batch"
    by (simp add: word_sless_alt sint_scast_cint)
  from lt have "sint (i + 1) = sint i + 1" by (rule sint_cint_Suc)
  with Suc.hyps(2) have c: "c = nat (2 ^ 31 - 1 - sint (i + 1))" by linarith
  show ?case
    apply (subst GetrfImpl_loop.simps)
    apply (simp only: cond if_True ok Status.case ne if_False)
    apply (rule Suc.hyps(1) [OF c])
    done
qed


subsection \<open>A failed scratch allocation\<close>



subsection \<open>The copy and the factorisations\<close>

lemma copy_call_distinct:
  "untyped_data a \<noteq> untyped_data out \<Longrightarrow>
   copy_call stream ty batch rows cols a out = [payload_copy stream ty batch rows cols a out]"
  by (simp add: copy_call_def payload_copy_def)

lemma copy_call_same:
  "untyped_data a = untyped_data out \<Longrightarrow> copy_call stream ty batch rows cols a out = []"
  by (simp add: copy_call_def)

text \<open>
  In a list of calls that has the copy after calls that are no factorisations, the copy
  comes before the first factorisation.
\<close>

lemma copy_before:
  assumes "\<forall>e\<in>set pre. \<not> is_factorization e"
  shows "payload_copy stream ty batch rows cols a out \<in>
         set (before_first_factorization
                (pre @ payload_copy stream ty batch rows cols a out # post))"
  using assms
  by (simp add: before_first_factorization_def takeWhile_append2 payload_copy_def)

lemma Run_at_is_factorization [simp]:
  "is_factorization (Run_at ty m n ws lw od pd nd k)" "\<not> is_copy (Run_at ty m n ws lw od pd nd k)"
  by (simp_all add: Run_at_def)

lemma payload_copy_kind [simp]:
  "\<not> is_factorization (payload_copy stream ty batch rows cols a out)"
  "is_copy (payload_copy stream ty batch rows cols a out)"
  by (simp_all add: payload_copy_def)

lemma looped_calls_copy:
  fixes stream ty batch rows cols a out ipiv info lw ws c
  defines "tr \<equiv> looped_calls stream ty batch rows cols lw ws a out ipiv info c"
    and "copy \<equiv> payload_copy stream ty batch rows cols a out"
  shows "(untyped_data a \<noteq> untyped_data out \<longrightarrow>
            copy \<in> set (before_first_factorization tr) \<and> copy \<in> set tr) \<and>
         (untyped_data a = untyped_data out \<longrightarrow> (\<forall>e\<in>set tr. \<not> is_copy e)) \<and>
         (\<forall>e\<in>set tr. is_copy e \<longrightarrow> e = copy) \<and>
         (\<forall>e\<in>set tr. is_factorization e \<longrightarrow>
            (\<exists>k. e = Run_at ty (scast rows) (scast cols) ws lw (untyped_data out)
                         (typed_data ipiv) (typed_data info) k))"
proof (cases "untyped_data a = untyped_data out")
  case True
  then show ?thesis
    by (auto simp: tr_def looped_calls_def copy_call_same)
next
  case False
  have "copy \<in> set (before_first_factorization tr)"
    unfolding tr_def copy_def looped_calls_def copy_call_distinct [OF False]
    using copy_before [of "[Borrow_Solver stream,
        BufferSize ty (scast rows) (scast cols) (scast rows),
        ScratchAllocate (sizeof ty * scast lw)]" stream ty batch rows cols a out]
    by simp
  with False show ?thesis
    by (auto simp: tr_def copy_def looped_calls_def copy_call_distinct)
qed

lemma batched_calls_copy:
  fixes stream ty batch cols a out ipiv info ws
  defines "tr \<equiv> batched_calls stream ty batch cols ws a out ipiv info"
    and "copy \<equiv> payload_copy stream ty batch cols cols a out"
  shows "(untyped_data a \<noteq> untyped_data out \<longrightarrow>
            copy \<in> set (before_first_factorization tr) \<and> copy \<in> set tr) \<and>
         (untyped_data a = untyped_data out \<longrightarrow> (\<forall>e\<in>set tr. \<not> is_copy e)) \<and>
         (\<forall>e\<in>set tr. is_copy e \<longrightarrow> e = copy) \<and>
         (\<forall>e\<in>set tr. is_factorization e \<longrightarrow>
            e = BatchedRun ty (scast cols) ws (scast cols) (typed_data ipiv) (typed_data info)
                  (ucast batch))"
proof (cases "untyped_data a = untyped_data out")
  case True
  then show ?thesis
    by (auto simp: tr_def batched_calls_def pointer_calls_def copy_call_same)
next
  case False
  have "copy \<in> set (before_first_factorization tr)"
    unfolding tr_def copy_def batched_calls_def copy_call_distinct [OF False]
    using copy_before [of "[Borrow_Blas stream, ScratchAllocate (8 * batch)]"
        stream ty batch cols cols a out]
    by simp
  with False show ?thesis
    by (auto simp: tr_def copy_def batched_calls_def pointer_calls_def copy_call_distinct)
qed


lemma not_Success: "code r = kInvalidArgument \<or> code r = kUnknown \<Longrightarrow> r \<noteq> Success"
  by (auto simp: Success_def)

lemma looped_outcome_copy:
  assumes "looped_outcome be stream ty batch rows cols a out ipiv info r tr"
  shows "(untyped_data a \<noteq> untyped_data out \<longrightarrow>
            ((\<exists>e\<in>set tr. is_factorization e) \<longrightarrow>
               payload_copy stream ty batch rows cols a out
                 \<in> set (before_first_factorization tr)) \<and>
            (r = Success \<longrightarrow> payload_copy stream ty batch rows cols a out \<in> set tr)) \<and>
         (untyped_data a = untyped_data out \<longrightarrow> (\<forall>e\<in>set tr. \<not> is_copy e)) \<and>
         (\<forall>e\<in>set tr. is_copy e \<longrightarrow> e = payload_copy stream ty batch rows cols a out) \<and>
         (\<forall>e\<in>set tr. is_factorization e \<longrightarrow>
            (\<exists>ws lw k. e = Run_at ty (scast rows) (scast cols) ws lw (untyped_data out)
                         (typed_data ipiv) (typed_data info) k))"
  using assms
proof cases
  case rejected
  then have "r \<noteq> Success" by (auto intro!: not_Success dest: cast_Inl)
  with rejected show ?thesis by simp
next
  case no_handle
  then have "r \<noteq> Success" by (auto intro!: not_Success)
  with no_handle show ?thesis by simp
next
  case no_size
  then have "r \<noteq> Success" by (auto intro!: not_Success)
  with no_size show ?thesis by simp
next
  case (no_scratch lw)
  then have "r \<noteq> Success" by (auto intro!: not_Success)
  with no_scratch show ?thesis by simp
next
  case (stopped lw ws c)
  then have "r \<noteq> Success" by (auto intro!: not_Success)
  with stopped(1) looped_calls_copy [of a out stream ty batch rows cols lw ws ipiv info c]
  show ?thesis by blast
next
  case (completed lw ws)
  with looped_calls_copy [of a out stream ty batch rows cols lw ws ipiv info "nat (sint batch)"]
  show ?thesis by blast
qed

lemma batched_outcome_copy:
  assumes "batched_outcome be stream ty batch cols a out ipiv info r tr"
  shows "(untyped_data a \<noteq> untyped_data out \<longrightarrow>
            ((\<exists>e\<in>set tr. is_factorization e) \<longrightarrow>
               payload_copy stream ty batch cols cols a out
                 \<in> set (before_first_factorization tr)) \<and>
            (r = Success \<longrightarrow> payload_copy stream ty batch cols cols a out \<in> set tr)) \<and>
         (untyped_data a = untyped_data out \<longrightarrow> (\<forall>e\<in>set tr. \<not> is_copy e)) \<and>
         (\<forall>e\<in>set tr. is_copy e \<longrightarrow> e = payload_copy stream ty batch cols cols a out) \<and>
         (\<forall>e\<in>set tr. is_factorization e \<longrightarrow>
            (\<exists>ws. e = BatchedRun ty (scast cols) ws (scast cols) (typed_data ipiv)
                        (typed_data info) (ucast batch) \<and>
                  MakeBatchPointers stream (untyped_data out) ws batch
                    (sizeof ty * scast (scast cols :: cint) * scast (scast cols :: cint))
                    \<in> set tr))"
  using assms
proof cases
  case rejected
  then have "r \<noteq> Success" by (auto intro!: not_Success dest: cast_Inl)
  with rejected show ?thesis by simp
next
  case no_handle
  then have "r \<noteq> Success" by (auto intro!: not_Success)
  with no_handle show ?thesis by simp
next
  case no_scratch
  then have "r \<noteq> Success" by (auto intro!: not_Success)
  with no_scratch show ?thesis by simp
next
  case (copy_failed ws)
  then have "r \<noteq> Success" by (auto intro!: not_Success)
  with copy_failed show ?thesis
    by (auto simp: copy_call_distinct)
next
  case (launch_failed ws)
  then have "r \<noteq> Success" by (auto intro!: not_Success)
  with launch_failed show ?thesis
    by (cases "untyped_data a = untyped_data out")
       (auto simp: copy_call_distinct copy_call_same pointer_calls_def)
next
  case (run_failed ws)
  then have "r \<noteq> Success" by (auto intro!: not_Success)
  moreover have "MakeBatchPointers stream (untyped_data out) ws batch
                    (sizeof ty * scast (scast cols :: cint) * scast (scast cols :: cint))
                    \<in> set (batched_calls stream ty batch cols ws a out ipiv info)"
    by (simp add: batched_calls_def pointer_calls_def)
  ultimately show ?thesis
    using run_failed(1) batched_calls_copy [of a out stream ty batch cols ws ipiv info]
    by blast
next
  case (completed ws)
  moreover have "MakeBatchPointers stream (untyped_data out) ws batch
                    (sizeof ty * scast (scast cols :: cint) * scast (scast cols :: cint))
                    \<in> set (batched_calls stream ty batch cols ws a out ipiv info)"
    by (simp add: batched_calls_def pointer_calls_def)
  ultimately show ?thesis
    using batched_calls_copy [of a out stream ty batch cols ws ipiv info]
    by blast
qed

text \<open>
  The copy, for every dispatch that returns: if the input and the output buffer are
  different allocations, the copy of the whole batch (\<open>sizeof(T) * batch * rows * cols\<close> bytes
  from the input to the output buffer, on the caller's stream) is among the calls issued
  before the first factorisation whenever a factorisation is issued, and it has been issued
  whenever the dispatch returns success; if they are the same allocation no copy is
  issued; and no other copy is ever issued.
\<close>

lemma copy_issued_first:
  assumes run: "GetrfDispatch be stream a out ipiv info [] = Some (r, tr)"
    and split: "SplitBatch2D (dimensions a) = Inr (batch, rows, cols)"
    and ty: "looped_kernel (element_type a) = Some ty"
  shows "(untyped_data a \<noteq> untyped_data out \<longrightarrow>
            ((\<exists>e\<in>set tr. is_factorization e) \<longrightarrow>
               payload_copy stream ty batch rows cols a out
                 \<in> set (before_first_factorization tr)) \<and>
            (r = Success \<longrightarrow> payload_copy stream ty batch rows cols a out \<in> set tr)) \<and>
         (untyped_data a = untyped_data out \<longrightarrow> (\<forall>e\<in>set tr. \<not> is_copy e)) \<and>
         (\<forall>e\<in>set tr. is_copy e \<longrightarrow> e = payload_copy stream ty batch rows cols a out)"
  using run
proof (cases rule: GetrfDispatch_outcome)
  case rejected
  then have "r \<noteq> Success" by (auto intro!: not_Success)
  with rejected show ?thesis by simp
next
  case (batched batch' rows' cols' tb es)
  with split have eq: "batch' = batch" "rows' = rows" "cols' = cols" by simp_all
  from batched(4) eq have sq: "rows = cols" by (simp add: batched_shape_def)
  from sizeof_kernels [OF ty batched(3)] sq have
    "payload_copy stream tb batch cols cols a out = payload_copy stream ty batch rows cols a out"
    by (simp add: payload_copy_def)
  with batched_outcome_copy [OF batched(6) [unfolded eq]] batched(5) show ?thesis
    by (simp only: append_Nil) blast
next
  case (looped batch' rows' cols' ty' es)
  with split ty have eq: "batch' = batch" "rows' = rows" "cols' = cols" "ty' = ty" by simp_all
  from looped_outcome_copy [OF looped(6) [unfolded eq]] looped(5) show ?thesis
    by (simp only: append_Nil) blast
qed

subsection \<open>Concrete runs\<close>



lemma singular_looped:
  "GetrfDispatch (good_backend 1) 0 (buffer F32 [2, 2, 3] 4096) (buffer F32 [2, 2, 3] 8192)
     (buffer_s32 12288) (buffer_s32 16384) [] =
   Some (Success,
     [Borrow_Solver 0, BufferSize float 2 3 2, ScratchAllocate 64,
      MemcpyAsync 8192 4096 48 0,
      Run float 2 3 8192 2 20480 16 12288 16384,
      Run float 2 3 8216 2 20480 16 12296 16388])"
  by (simp add: concrete_defs GetrfImpl_loop.simps)

lemma distinct_buffers_batched:
  "GetrfDispatch (good_backend 0) 0 (buffer F32 [4, 3, 3] 4096) (buffer F32 [4, 3, 3] 8192)
     (buffer_s32 12288) (buffer_s32 16384) [] =
   Some (Success,
     [Borrow_Blas 0, ScratchAllocate 32, MemcpyAsync 8192 4096 144 0,
      MakeBatchPointers 0 8192 20480 4 36, GetLastError,
      BatchedRun float 3 20480 3 12288 16384 4])"
  by (simp add: concrete_defs)

lemma oversized_looped:
  "GetrfDispatch (good_backend 0) 0 (buffer F32 [2147483648, 1, 2] 68719476736)
     (buffer F32 [2147483648, 1, 2] 137438953472)
     (buffer_s32 274877906944) (buffer_s32 549755813888) [] = None"
proof -
  have "GetrfImpl_loop (good_backend 0) float 2147483648 1 2 20480 16 i od pd nd tr = None"
    for i od pd nd tr
    by (rule loop_undefined) (simp_all add: good_backend_def)
  then show ?thesis
    by (simp add: concrete_defs)
qed

section \<open>The claims\<close>

text \<open>
  C1.  For an input of a supported element type (which the output shares, the dispatcher
  having checked that first) whose dimensions decompose into (batch, rows, cols), the
  dispatcher runs the batched implementation if and only if batch > 1 and rows = cols and
  rows / batch <= 128 in integer division, and the looped implementation for every other
  shape.
\<close>

theorem GetrfDispatch_strategy:
  assumes "element_type out = element_type a"
    and "looped_kernel (element_type a) = Some tlp"
    and "batched_kernel (element_type a) = Some tbt"
    and "SplitBatch2D (dimensions a) = Inr (batch, rows, cols)"
  shows "GetrfDispatch be stream a out ipiv info tr =
     (if 1 < sint batch \<and> rows = cols \<and> sint rows div sint batch \<le> 128
      then Some (GetrfBatchedImpl be tbt batch cols stream a out ipiv info tr)
      else GetrfImpl be tlp batch rows cols stream a out ipiv info tr)"
  using GetrfDispatch_supported [OF assms] by (simp add: batched_shape_def)

theorem GetrfDispatch_strategy_witness:
  "element_type (buffer F32 [4, 3, 3] 8192) = element_type (buffer F32 [4, 3, 3] 4096) \<and>
   looped_kernel (element_type (buffer F32 [4, 3, 3] 4096)) = Some float \<and>
   batched_kernel (element_type (buffer F32 [4, 3, 3] 4096)) = Some float \<and>
   SplitBatch2D (dimensions (buffer F32 [4, 3, 3] 4096)) = Inr (4, 3, 3) \<and>
   GetrfDispatch (good_backend 0) 0 (buffer F32 [4, 3, 3] 4096) (buffer F32 [4, 3, 3] 8192)
     (buffer_s32 12288) (buffer_s32 16384) [] =
   Some (GetrfBatchedImpl (good_backend 0) float 4 3 0 (buffer F32 [4, 3, 3] 4096)
           (buffer F32 [4, 3, 3] 8192) (buffer_s32 12288) (buffer_s32 16384) []) \<and>
   SplitBatch2D (dimensions (buffer F32 [2, 2, 3] 4096)) = Inr (2, 2, 3) \<and>
   GetrfDispatch (good_backend 0) 0 (buffer F32 [2, 2, 3] 4096) (buffer F32 [2, 2, 3] 8192)
     (buffer_s32 12288) (buffer_s32 16384) [] =
   GetrfImpl (good_backend 0) float 2 2 3 0 (buffer F32 [2, 2, 3] 4096)
     (buffer F32 [2, 2, 3] 8192) (buffer_s32 12288) (buffer_s32 16384) []"
proof -
  have h: "element_type (buffer F32 [4, 3, 3] 8192) = element_type (buffer F32 [4, 3, 3] 4096)"
    "looped_kernel (element_type (buffer F32 [4, 3, 3] 4096)) = Some float"
    "batched_kernel (element_type (buffer F32 [4, 3, 3] 4096)) = Some float"
    "SplitBatch2D (dimensions (buffer F32 [4, 3, 3] 4096)) = Inr (4, 3, 3)"
    by (simp_all add: buffer_def SplitBatch2D_def)
  have g: "element_type (buffer F32 [2, 2, 3] 8192) = element_type (buffer F32 [2, 2, 3] 4096)"
    "looped_kernel (element_type (buffer F32 [2, 2, 3] 4096)) = Some float"
    "batched_kernel (element_type (buffer F32 [2, 2, 3] 4096)) = Some float"
    "SplitBatch2D (dimensions (buffer F32 [2, 2, 3] 4096)) = Inr (2, 2, 3)"
    by (simp_all add: buffer_def SplitBatch2D_def)
  from h g
    GetrfDispatch_strategy [OF h, of "good_backend 0" 0 "buffer_s32 12288" "buffer_s32 16384" "[]"]
    GetrfDispatch_strategy [OF g, of "good_backend 0" 0 "buffer_s32 12288" "buffer_s32 16384" "[]"]
  show ?thesis by simp
qed

text \<open>
  C2 (as amended).  For a dispatch that gets past validation, handle borrowing and scratch
  allocation and in which every pool and backend call returns an OK status, with rows, cols
  and batch (and rows * cols in the looped strategy) within the 32-bit signed range: the
  dispatch returns success, and a factorisation has been issued for every matrix of the
  batch on that matrix's part of the output, pivot and info arrays, by one run per matrix in
  the looped strategy and by one batched run over the whole batch, with a pointer array
  built over the output buffer, in the batched strategy.  The info code that a run writes
  (positive for a singular matrix) is no part of the status it returns, so it cannot stop
  the dispatch.  As stated the claim fails: a run whose call returns a failing status ends
  the dispatch with \<^verbatim>\<open>Unknown\<close> and the matrices after it are not factorised.
\<close>

theorem every_matrix_factorized:
  assumes same: "element_type out = element_type a"
    and tlp: "looped_kernel (element_type a) = Some tlp"
    and tbt: "batched_kernel (element_type a) = Some tbt"
    and split: "SplitBatch2D (dimensions a) = Inr (batch, rows, cols)"
    and ok: "all_calls_ok be"
    and alloc: "\<forall>sz. Allocate be sz \<noteq> None"
    and rows: "0 \<le> sint rows" "sint rows \<le> 2 ^ 31 - 1"
    and cols: "0 \<le> sint cols" "sint cols \<le> 2 ^ 31 - 1"
    and batch: "sint batch \<le> 2 ^ 31 - 1"
    and elems: "\<not> batched_shape batch rows cols \<longrightarrow> sint rows * sint cols \<le> 2 ^ 31 - 1"
  shows "\<exists>tr ws lw.
     GetrfDispatch be stream a out ipiv info [] = Some (Success, tr) \<and>
     (if batched_shape batch rows cols
      then MakeBatchPointers stream (untyped_data out) ws batch (sizeof tbt * cols * cols)
             \<in> set tr \<and>
           (\<exists>b. BatchedRun tbt (scast cols) ws (scast cols) (typed_data ipiv)
                  (typed_data info) b \<in> set tr \<and> sint b = sint batch)
      else length (filter is_factorization tr) = nat (sint batch) \<and>
           (\<forall>k<nat (sint batch).
              matrix_call tlp rows cols ws lw (untyped_data out) (typed_data ipiv)
                (typed_data info) k \<in> set tr))"
proof -
  note eq = GetrfDispatch_supported [OF same tlp tbt split, of be stream ipiv info "[]"]
  have lo: "- (2 ^ 31) \<le> sint rows" "- (2 ^ 31) \<le> sint cols"
    by (rule order_trans [OF _ rows(1)], simp, rule order_trans [OF _ cols(1)], simp)
  note m = cast_fits [OF lo(1) rows(2)] and n = cast_fits [OF lo(2) cols(2)]
  show ?thesis
  proof (cases "batched_shape batch rows cols")
    case True
    from alloc obtain ws where ws: "Allocate be (8 * batch) = Some ws" by auto
    from True have "1 < sint batch" by (simp add: batched_shape_def)
    then have "- (2 ^ 31) \<le> sint batch" by simp
    from narrowed_same [OF this batch] have b: "sint (ucast batch :: cint) = sint batch" .
    have run: "GetrfDispatch be stream a out ipiv info [] =
               Some (Success, batched_calls stream tbt batch cols ws a out ipiv info)"
      using eq True GetrfBatchedImpl_all_ok [OF ok n ws] by simp
    have "MakeBatchPointers stream (untyped_data out) ws batch (sizeof tbt * cols * cols)
            \<in> set (batched_calls stream tbt batch cols ws a out ipiv info)"
      by (simp add: batched_calls_def pointer_calls_def scast_scast_fits [OF lo(2) cols(2)])
    moreover have "BatchedRun tbt (scast cols) ws (scast cols) (typed_data ipiv)
                  (typed_data info) (ucast batch)
            \<in> set (batched_calls stream tbt batch cols ws a out ipiv info)"
      by (simp add: batched_calls_def)
    ultimately show ?thesis using run True b by auto
  next
    case False
    define lw where "lw = snd (getrf_bufferSize be tlp (scast rows) (scast cols) (scast rows))"
    from alloc obtain ws where ws: "Allocate be (sizeof tlp * scast lw) = Some ws" by auto
    let ?tr = "looped_calls stream tlp batch rows cols lw ws a out ipiv info (nat (sint batch))"
    have run: "GetrfDispatch be stream a out ipiv info [] = Some (Success, ?tr)"
      using eq False GetrfImpl_all_ok [OF ok m n ws [unfolded lw_def] batch]
      by (simp add: lw_def)
    from False elems have el: "sint rows * sint cols \<le> 2 ^ 31 - 1" by simp
    have mc: "matrix_call tlp rows cols ws lw (untyped_data out) (typed_data ipiv)
                (typed_data info) k \<in> set ?tr" if "k < nat (sint batch)" for k
      using that
      by (simp add: looped_calls_def
            Run_at_matrix_call [OF rows(1) cols(1) el rows(2) cols(2), symmetric])
    have "length (filter is_factorization ?tr) = nat (sint batch)"
      by (simp add: factorizations_looped_calls)
    with mc run False show ?thesis by auto
  qed
qed

theorem every_matrix_factorized_witness:
  "all_calls_ok (good_backend 1) \<and>
   Allocate (good_backend 1) 64 = Some 20480 \<and>
   snd (getrf (good_backend 1) float 2 3 8192 2 20480 16 12288 16384) = 1 \<and>
   SplitBatch2D (dimensions (buffer F32 [2, 2, 3] 4096)) = Inr (2, 2, 3) \<and>
   \<not> batched_shape 2 2 3 \<and>
   sint (2 :: int64_t) * sint (3 :: int64_t) \<le> 2 ^ 31 - 1 \<and>
   (\<exists>tr ws lw.
      GetrfDispatch (good_backend 1) 0 (buffer F32 [2, 2, 3] 4096) (buffer F32 [2, 2, 3] 8192)
        (buffer_s32 12288) (buffer_s32 16384) [] = Some (Success, tr) \<and>
      length (filter is_factorization tr) = 2 \<and>
      matrix_call float 2 3 ws lw 8192 12288 16384 0 \<in> set tr \<and>
      matrix_call float 2 3 ws lw 8192 12288 16384 1 \<in> set tr)"
proof -
  let ?a = "buffer F32 [2, 2, 3] 4096"
  let ?out = "buffer F32 [2, 2, 3] 8192"
  have h: "element_type ?out = element_type ?a"
    "looped_kernel (element_type ?a) = Some float"
    "batched_kernel (element_type ?a) = Some float"
    "SplitBatch2D (dimensions ?a) = Inr (2, 2, 3)"
    "all_calls_ok (good_backend 1)"
    "\<forall>sz. Allocate (good_backend 1) sz \<noteq> None"
    "0 \<le> sint (2 :: int64_t)" "sint (2 :: int64_t) \<le> 2 ^ 31 - 1"
    "0 \<le> sint (3 :: int64_t)" "sint (3 :: int64_t) \<le> 2 ^ 31 - 1"
    "sint (2 :: int64_t) \<le> 2 ^ 31 - 1"
    by (simp_all add: buffer_def SplitBatch2D_def all_calls_ok_def good_backend_def)
  have s: "\<not> batched_shape 2 2 3"
    by (simp add: batched_shape_def)
  then have e: "\<not> batched_shape 2 2 3 \<longrightarrow> sint (2 :: int64_t) * sint (3 :: int64_t) \<le> 2 ^ 31 - 1"
    by simp
  have i: "snd (getrf (good_backend 1) float 2 3 8192 2 20480 16 12288 16384) = 1"
    "Allocate (good_backend 1) 64 = Some 20480"
    by (simp_all add: good_backend_def)
  from every_matrix_factorized [OF h e, of 0 "buffer_s32 12288" "buffer_s32 16384"] s
  obtain tr ws lw where
    "GetrfDispatch (good_backend 1) 0 ?a ?out (buffer_s32 12288) (buffer_s32 16384) [] =
       Some (Success, tr)"
    "length (filter is_factorization tr) = 2"
    "\<forall>k<2. matrix_call float 2 3 ws lw 8192 12288 16384 k \<in> set tr"
    by (auto simp: buffer_def buffer_s32_def)
  then have "\<exists>tr ws lw.
      GetrfDispatch (good_backend 1) 0 ?a ?out (buffer_s32 12288) (buffer_s32 16384) [] =
        Some (Success, tr) \<and>
      length (filter is_factorization tr) = 2 \<and>
      matrix_call float 2 3 ws lw 8192 12288 16384 0 \<in> set tr \<and>
      matrix_call float 2 3 ws lw 8192 12288 16384 1 \<in> set tr"
    by (intro exI [of _ tr] exI [of _ ws] exI [of _ lw]) simp
  with h s i show ?thesis by simp
qed

theorem every_matrix_factorized_counterexample:
  "GetrfDispatch failing_run_backend 0 (buffer F32 [2, 2, 3] 4096) (buffer F32 [2, 2, 3] 8192)
     (buffer_s32 12288) (buffer_s32 16384) [] =
   Some (Error kUnknown ''execution failed'',
     [Borrow_Solver 0, BufferSize float 2 3 2, ScratchAllocate 64,
      MemcpyAsync 8192 4096 48 0,
      Run float 2 3 8192 2 20480 16 12288 16384]) \<and>
   SolverHandlePool_Borrow failing_run_backend 0 = OkStatus \<and>
   Allocate failing_run_backend 64 = Some 20480"
  by (simp add: concrete_defs GetrfImpl_loop.simps)




text \<open>
  C4.  Whatever the input and whichever call fails, the result of the dispatch entry point
  is success or an error whose code is \<^verbatim>\<open>InvalidArgument\<close> or \<^verbatim>\<open>Unknown\<close>; no other code
  is produced.  (The code given to a failed pool or vendor call is that of the spec, see
  \<open>AsFfiError\<close>.)
\<close>

theorem error_codes:
  assumes "GetrfDispatch be stream a out ipiv info tr0 = Some (r, tr)"
  shows "r = Success \<or> code r = kInvalidArgument \<or> code r = kUnknown"
  using assms
proof (cases rule: GetrfDispatch_outcome)
  case rejected
  then show ?thesis by simp
next
  case (batched batch rows cols ty es)
  then show ?thesis by (simp add: batched_outcome_code)
next
  case (looped batch rows cols ty es)
  then show ?thesis by (simp add: looped_outcome_code)
qed

theorem error_codes_witness:
  "GetrfDispatch no_scratch_backend 0 (buffer F32 [2, 2, 3] 4096) (buffer F32 [2, 2, 3] 8192)
     (buffer_s32 12288) (buffer_s32 16384) [] =
   Some (Error kUnknown ''Unable to allocate workspace for getrf'',
         [Borrow_Solver 0, BufferSize float 2 3 2, ScratchAllocate 64]) \<and>
   (Error kUnknown ''Unable to allocate workspace for getrf'' = Success \<or>
    code (Error kUnknown ''Unable to allocate workspace for getrf'') = kInvalidArgument \<or>
    code (Error kUnknown ''Unable to allocate workspace for getrf'') = kUnknown)"
proof -
  have h: "GetrfDispatch no_scratch_backend 0 (buffer F32 [2, 2, 3] 4096)
     (buffer F32 [2, 2, 3] 8192) (buffer_s32 12288) (buffer_s32 16384) [] =
   Some (Error kUnknown ''Unable to allocate workspace for getrf'',
         [Borrow_Solver 0, BufferSize float 2 3 2, ScratchAllocate 64])"
    by (simp add: concrete_defs)
  from h error_codes [OF h] show ?thesis by (rule conjI)
qed

text \<open>
  C5.  If the element type of the input buffer differs from that of the output buffer, the
  dispatcher returns \<^verbatim>\<open>InvalidArgument\<close> and the list of calls is as it was: no copy, no
  handle borrow, no backend call.
\<close>

theorem type_mismatch_InvalidArgument:
  assumes "element_type a \<noteq> element_type out"
  shows "GetrfDispatch be stream a out ipiv info tr =
         Some (Error kInvalidArgument
                 ''The input and output to getrf must have the same element type'', tr)"
  using assms by (simp add: GetrfDispatch_def)

theorem type_mismatch_InvalidArgument_witness:
  "element_type (buffer F32 [2, 2, 3] 4096) \<noteq> element_type (buffer F64 [2, 2, 3] 8192) \<and>
   GetrfDispatch (good_backend 0) 0 (buffer F32 [2, 2, 3] 4096) (buffer F64 [2, 2, 3] 8192)
     (buffer_s32 12288) (buffer_s32 16384) [] =
   Some (Error kInvalidArgument
           ''The input and output to getrf must have the same element type'', [])"
proof -
  have h: "element_type (buffer F32 [2, 2, 3] 4096) \<noteq> element_type (buffer F64 [2, 2, 3] 8192)"
    by (simp add: buffer_def)
  from h type_mismatch_InvalidArgument [OF h] show ?thesis by simp
qed

text \<open>
  C6.  If rows or cols exceeds the 32-bit signed range, the dispatch returns
  \<^verbatim>\<open>InvalidArgument\<close> with no call issued, and so does each of the two implementations (the
  batched one is only ever given a cols that equals rows).
\<close>

theorem dimension_overflow_InvalidArgument:
  assumes "SplitBatch2D (dimensions a) = Inr (batch, rows, cols)"
    and "2 ^ 31 - 1 < sint rows \<or> 2 ^ 31 - 1 < sint cols"
  shows "(\<exists>msg. GetrfDispatch be stream a out ipiv info tr =
                Some (Error kInvalidArgument msg, tr)) \<and>
         (\<exists>msg. GetrfImpl be ty batch rows cols stream a out ipiv info tr =
                Some (Error kInvalidArgument msg, tr)) \<and>
         (rows = cols \<longrightarrow>
            (\<exists>msg. GetrfBatchedImpl be ty batch cols stream a out ipiv info tr =
                (Error kInvalidArgument msg, tr)))"
proof (intro conjI impI)
  show "\<exists>msg. GetrfImpl be ty batch rows cols stream a out ipiv info tr =
                Some (Error kInvalidArgument msg, tr)"
    by (rule GetrfImpl_overflow [OF assms(2)])
  show "\<exists>msg. GetrfBatchedImpl be ty batch cols stream a out ipiv info tr =
                (Error kInvalidArgument msg, tr)" if "rows = cols"
    using assms(2) that by (intro GetrfBatchedImpl_overflow) auto
  show "\<exists>msg. GetrfDispatch be stream a out ipiv info tr = Some (Error kInvalidArgument msg, tr)"
  proof (cases "element_type a = element_type out")
    case False
    then show ?thesis by (simp add: GetrfDispatch_def)
  next
    case same: True
    show ?thesis
    proof (cases "looped_kernel (element_type a)")
      case None
      from GetrfDispatch_unsupported [OF same [symmetric] None assms(1)] show ?thesis by simp
    next
      case (Some tlp)
      with kernels_agree [of "element_type a"] obtain tbt where
        tbt: "batched_kernel (element_type a) = Some tbt" by auto
      note eq = GetrfDispatch_supported [OF same [symmetric] Some tbt assms(1), of be stream ipiv info tr]
      show ?thesis
      proof (cases "batched_shape batch rows cols")
        case True
        then have "rows = cols" by (simp add: batched_shape_def)
        with assms(2) have "2 ^ 31 - 1 < sint cols" by auto
        from GetrfBatchedImpl_overflow [OF this] eq True show ?thesis by simp
      next
        case False
        with GetrfImpl_overflow [OF assms(2)] eq show ?thesis by simp
      qed
    qed
  qed
qed

theorem dimension_overflow_InvalidArgument_witness:
  "SplitBatch2D (dimensions (buffer F32 [2, 2147483648, 3] 4096)) = Inr (2, 2147483648, 3) \<and>
   (2 ^ 31 - 1 < sint (2147483648 :: int64_t) \<or> 2 ^ 31 - 1 < sint (3 :: int64_t)) \<and>
   (\<exists>msg. GetrfDispatch (good_backend 0) 0 (buffer F32 [2, 2147483648, 3] 4096)
            (buffer F32 [2, 2147483648, 3] 8192) (buffer_s32 12288) (buffer_s32 16384) [] =
          Some (Error kInvalidArgument msg, [])) \<and>
   SplitBatch2D (dimensions (buffer F32 [16777216, 2147483648, 2147483648] 4096)) =
     Inr (16777216, 2147483648, 2147483648) \<and>
   batched_shape 16777216 2147483648 2147483648 \<and>
   (\<exists>msg. GetrfDispatch (good_backend 0) 0 (buffer F32 [16777216, 2147483648, 2147483648] 4096)
            (buffer F32 [16777216, 2147483648, 2147483648] 8192) (buffer_s32 12288)
            (buffer_s32 16384) [] =
          Some (Error kInvalidArgument msg, []))"
proof -
  have h: "SplitBatch2D (dimensions (buffer F32 [2, 2147483648, 3] 4096)) = Inr (2, 2147483648, 3)"
    "2 ^ 31 - 1 < sint (2147483648 :: int64_t) \<or> 2 ^ 31 - 1 < sint (3 :: int64_t)"
    by (simp_all add: buffer_def SplitBatch2D_def)
  have g: "SplitBatch2D (dimensions (buffer F32 [16777216, 2147483648, 2147483648] 4096)) =
     Inr (16777216, 2147483648, 2147483648)"
    "2 ^ 31 - 1 < sint (2147483648 :: int64_t) \<or> 2 ^ 31 - 1 < sint (2147483648 :: int64_t)"
    by (simp_all add: buffer_def SplitBatch2D_def)
  have b: "batched_shape 16777216 2147483648 2147483648"
    by (simp add: batched_shape_def)
  from h g(1) b
    dimension_overflow_InvalidArgument [OF h, of "good_backend 0" 0
      "buffer F32 [2, 2147483648, 3] 8192" "buffer_s32 12288" "buffer_s32 16384" "[]" float]
    dimension_overflow_InvalidArgument [OF g, of "good_backend 0" 0
      "buffer F32 [16777216, 2147483648, 2147483648] 8192" "buffer_s32 12288" "buffer_s32 16384" "[]"
      float]
  show ?thesis by blast
qed

text \<open>
  C7.  The claim: if the input and the output buffer are distinct allocations, the whole
  batch is copied device to device on the caller's stream before any factorisation is
  issued, and the factorisation then operates in place on the output buffer.  The code at
  a batch of two 46341-by-46341 \<^verbatim>\<open>float\<close> matrices in distinct buffers: the copy of the whole
  batch (17179906248 bytes from the input to the output buffer) is issued before the first
  run, and the first run works at the address of the output buffer; but the second run is
  given an address below the output buffer, because the step of the buffer cursor is the
  product \<open>m * n\<close> computed in \<^verbatim>\<open>int\<close>, which is negative for these sizes.  The second conjunct
  is the run on the second matrix of the output buffer, \<open>rows * cols\<close> elements after its
  start; the third says that the address the code passes lies before the start of the
  output buffer.  The defect is the one of C8.  The part of the claim about the copy holds
  for every dispatch (\<open>copy_issued_first\<close>), and where \<open>rows * cols\<close> fits an \<^verbatim>\<open>int\<close> every run
  is given its matrix of the output buffer (\<open>Run_at_matrix_call\<close>).
\<close>

theorem factorization_outside_output:
  "GetrfDispatch (good_backend 0) 0 (buffer F32 [2, 46341, 46341] 68719476736)
     (buffer F32 [2, 46341, 46341] 137438953472)
     (buffer_s32 274877906944) (buffer_s32 549755813888) [] =
   Some (Success,
     [Borrow_Solver 0, BufferSize float 46341 46341 46341, ScratchAllocate 64,
      MemcpyAsync 137438953472 68719476736 17179906248 0,
      Run float 46341 46341 137438953472 46341 20480 16 274877906944 549755813888,
      Run float 46341 46341 128849037412 46341 20480 16 274878092308 549755813892]) \<and>
   matrix_call float 46341 46341 20480 16 137438953472 274877906944 549755813888 1 =
     Run float 46341 46341 146028906596 46341 20480 16 274878092308 549755813892 \<and>
   (128849037412 :: ptr) < 137438953472"
  by (simp add: concrete_defs GetrfImpl_loop.simps matrix_call_def)

text \<open>
  C8.  The claim: in the looped strategy the run is invoked once per matrix, and after each
  call the buffer cursor advances by rows * cols elements, the pivot cursor by
  min(rows, cols) elements and the info cursor by one element.  The code at a batch of two
  65536-by-65536 \<^verbatim>\<open>float\<close> matrices: the loop runs once per matrix, the pivot cursor moves by
  65536 elements and the info cursor by one, but the step of the buffer cursor is the
  product \<open>m * n\<close> computed in \<^verbatim>\<open>int\<close>, which is 0 for these sizes, so the second run is
  given the address of the first matrix again.  The second conjunct is the call the claim
  describes for the second matrix, \<open>rows * cols\<close> elements further.  Where rows * cols fits
  an \<^verbatim>\<open>int\<close> the two agree (\<open>Run_at_matrix_call\<close>).
\<close>

theorem cursor_step_overflow:
  "GetrfDispatch (good_backend 0) 0 (buffer F32 [2, 65536, 65536] 68719476736)
     (buffer F32 [2, 65536, 65536] 137438953472)
     (buffer_s32 274877906944) (buffer_s32 549755813888) [] =
   Some (Success,
     [Borrow_Solver 0, BufferSize float 65536 65536 65536, ScratchAllocate 64,
      MemcpyAsync 137438953472 68719476736 34359738368 0,
      Run float 65536 65536 137438953472 65536 20480 16 274877906944 549755813888,
      Run float 65536 65536 137438953472 65536 20480 16 274878169088 549755813892]) \<and>
   matrix_call float 65536 65536 20480 16 137438953472 274877906944 549755813888 1 =
     Run float 65536 65536 154618822656 65536 20480 16 274878169088 549755813892"
  by (simp add: concrete_defs GetrfImpl_loop.simps matrix_call_def)

text \<open>
  C9.  The batched implementation is entered only with rows = cols: under the batched
  test the dispatcher's result is that of \<open>GetrfBatchedImpl\<close>, which is given cols and not
  rows, and a cols that passes the 32-bit cast makes rows pass it with the same value; with
  rows \<open>\<noteq>\<close> cols the dispatcher's result is that of \<open>GetrfImpl\<close>.  A batched run that
  succeeds has used cols for the matrix order and the leading dimension of the batched
  call, for the size of the copy and for the stride of the pointer array.
\<close>

theorem batched_path_uses_cols:
  assumes same: "element_type out = element_type a"
    and tbt: "batched_kernel (element_type a) = Some ty"
    and split: "SplitBatch2D (dimensions a) = Inr (batch, rows, cols)"
  shows "(batched_shape batch rows cols \<longrightarrow>
            rows = cols \<and>
            GetrfDispatch be stream a out ipiv info [] =
              Some (GetrfBatchedImpl be ty batch cols stream a out ipiv info []) \<and>
            (\<forall>n. MaybeCastNoOverflow cols = Inr n \<longrightarrow> MaybeCastNoOverflow rows = Inr n)) \<and>
         (rows \<noteq> cols \<longrightarrow>
            (\<exists>tlp. looped_kernel (element_type a) = Some tlp \<and>
               GetrfDispatch be stream a out ipiv info [] =
                 GetrfImpl be tlp batch rows cols stream a out ipiv info [])) \<and>
         (\<forall>tr. GetrfBatchedImpl be ty batch cols stream a out ipiv info [] = (Success, tr) \<longrightarrow>
            (\<exists>ws. tr =
               [Borrow_Blas stream, ScratchAllocate (8 * batch)] @
               (if untyped_data a \<noteq> untyped_data out
                then [MemcpyAsync (untyped_data out) (untyped_data a)
                        (sizeof ty * batch * cols * cols) stream]
                else []) @
               [MakeBatchPointers stream (untyped_data out) ws batch
                  (sizeof ty * scast (scast cols :: cint) * scast (scast cols :: cint)),
                GetLastError,
                BatchedRun ty (scast cols) ws (scast cols) (typed_data ipiv) (typed_data info)
                  (ucast batch)]))"
proof -
  from tbt kernels_agree [of "element_type a"] obtain tlp where
    tlp: "looped_kernel (element_type a) = Some tlp" by (cases "looped_kernel (element_type a)") auto
  note eq = GetrfDispatch_supported [OF same tlp tbt split, of be stream ipiv info "[]"]
  have 1: "rows = cols \<and>
            GetrfDispatch be stream a out ipiv info [] =
              Some (GetrfBatchedImpl be ty batch cols stream a out ipiv info []) \<and>
            (\<forall>n. MaybeCastNoOverflow cols = Inr n \<longrightarrow> MaybeCastNoOverflow rows = Inr n)"
    if "batched_shape batch rows cols"
    using that eq batched_shape_square [OF that] by simp
  have 2: "\<exists>tlp. looped_kernel (element_type a) = Some tlp \<and>
               GetrfDispatch be stream a out ipiv info [] =
                 GetrfImpl be tlp batch rows cols stream a out ipiv info []"
    if "rows \<noteq> cols"
  proof -
    from that have "\<not> batched_shape batch rows cols" by (simp add: batched_shape_def)
    with eq tlp show ?thesis by simp
  qed
  have 3: "\<exists>ws. tr =
               [Borrow_Blas stream, ScratchAllocate (8 * batch)] @
               (if untyped_data a \<noteq> untyped_data out
                then [MemcpyAsync (untyped_data out) (untyped_data a)
                        (sizeof ty * batch * cols * cols) stream]
                else []) @
               [MakeBatchPointers stream (untyped_data out) ws batch
                  (sizeof ty * scast (scast cols :: cint) * scast (scast cols :: cint)),
                GetLastError,
                BatchedRun ty (scast cols) ws (scast cols) (typed_data ipiv) (typed_data info)
                  (ucast batch)]"
    if "GetrfBatchedImpl be ty batch cols stream a out ipiv info [] = (Success, tr)" for tr
    using batched_completed_calls [OF that]
    by (auto simp: batched_calls_def copy_call_def pointer_calls_def)
  from 1 2 3 show ?thesis by blast
qed

theorem batched_path_uses_cols_witness:
  "element_type (buffer F32 [4, 3, 3] 8192) = element_type (buffer F32 [4, 3, 3] 4096) \<and>
   batched_kernel (element_type (buffer F32 [4, 3, 3] 4096)) = Some float \<and>
   SplitBatch2D (dimensions (buffer F32 [4, 3, 3] 4096)) = Inr (4, 3, 3) \<and>
   batched_shape 4 3 3 \<and>
   GetrfDispatch (good_backend 0) 0 (buffer F32 [4, 3, 3] 4096) (buffer F32 [4, 3, 3] 8192)
     (buffer_s32 12288) (buffer_s32 16384) [] =
   Some (GetrfBatchedImpl (good_backend 0) float 4 3 0 (buffer F32 [4, 3, 3] 4096)
           (buffer F32 [4, 3, 3] 8192) (buffer_s32 12288) (buffer_s32 16384) []) \<and>
   GetrfBatchedImpl (good_backend 0) float 4 3 0 (buffer F32 [4, 3, 3] 4096)
           (buffer F32 [4, 3, 3] 8192) (buffer_s32 12288) (buffer_s32 16384) [] =
   (Success,
    [Borrow_Blas 0, ScratchAllocate 32, MemcpyAsync 8192 4096 144 0,
     MakeBatchPointers 0 8192 20480 4 36, GetLastError,
     BatchedRun float 3 20480 3 12288 16384 4])"
proof -
  let ?a = "buffer F32 [4, 3, 3] 4096"
  let ?out = "buffer F32 [4, 3, 3] 8192"
  have h: "element_type ?out = element_type ?a"
    "batched_kernel (element_type ?a) = Some float"
    "SplitBatch2D (dimensions ?a) = Inr (4, 3, 3)"
    by (simp_all add: buffer_def SplitBatch2D_def)
  have b: "batched_shape 4 3 3"
    by (simp add: batched_shape_def)
  have e: "GetrfBatchedImpl (good_backend 0) float 4 3 0 ?a ?out (buffer_s32 12288)
             (buffer_s32 16384) [] =
   (Success,
    [Borrow_Blas 0, ScratchAllocate 32, MemcpyAsync 8192 4096 144 0,
     MakeBatchPointers 0 8192 20480 4 36, GetLastError,
     BatchedRun float 3 20480 3 12288 16384 4])"
    by (simp add: concrete_defs)
  from batched_path_uses_cols [OF h, of "good_backend 0" 0 "buffer_s32 12288" "buffer_s32 16384"]
    h b e
  show ?thesis by simp
qed




end
